theory Spec2Isabelle
  imports Main "HOL-Library.AList" "HOL-Library.Word" "HOL-Library.Monad_Syntax"
begin

section \<open>JavaScript values used by the relay and the client\<close>

text \<open>
  Numbers that the program only counts, compares and increments (sequence numbers,
  timestamps, chunk indices, chunk counts) are integers. A JavaScript \<open>Map\<close> keeps its
  keys in insertion order and \<open>set\<close> on a present key replaces the value in place: it is
  an association list with \<open>AList.update\<close>, \<open>map_of\<close> and \<open>AList.delete\<close>; its \<open>size\<close> is the
  length of the list. A \<open>Set\<close> built from an array keeps the first occurrence of every
  element, in order.
\<close>

definition js_truthy :: "string option \<Rightarrow> bool" where
  "js_truthy v = (case v of None \<Rightarrow> False | Some s \<Rightarrow> s \<noteq> [])"

text \<open>
  The relay never checks the type of \<open>participants\<close> and \<open>admins\<close> in a \<open>create_room\<close>
  payload, and it stores \<open>admins\<close> as it comes. What the handlers do with such a value
  depends on its kind only: a falsy value (absent, \<open>null\<close>, \<open>false\<close>, 0), an array, a
  string (falsy when empty; spread, it gives its characters; it has no \<open>filter\<close>), or
  any other truthy value (a number, \<open>true\<close>, an object: not iterable, no \<open>filter\<close>).
  Identifiers are strings throughout, also as array elements. \<open>None\<close> stands for the
  \<open>TypeError\<close> that the operation throws.
\<close>

datatype ids_value = Falsy | Id_array "string list" | Id_string string | Not_iterable

definition truthy :: "ids_value \<Rightarrow> bool" where
  "truthy v = (case v of Falsy \<Rightarrow> False | Id_array xs \<Rightarrow> True | Id_string s \<Rightarrow> s \<noteq> []
                 | Not_iterable \<Rightarrow> True)"

text \<open>\<open>v || []\<close>, \<open>[...v]\<close>, \<open>v.filter(p)\<close> and \<open>Array.isArray(v) && v.includes(x)\<close>.\<close>

definition or_array :: "ids_value \<Rightarrow> ids_value" where
  "or_array v = (if truthy v then v else Id_array [])"

definition spread :: "ids_value \<Rightarrow> string list option" where
  "spread v = (case v of Falsy \<Rightarrow> None | Id_array xs \<Rightarrow> Some xs
                 | Id_string s \<Rightarrow> Some (map (\<lambda>c. [c]) s) | Not_iterable \<Rightarrow> None)"

definition filter_ids :: "(string \<Rightarrow> bool) \<Rightarrow> ids_value \<Rightarrow> string list option" where
  "filter_ids p v = (case v of Falsy \<Rightarrow> None | Id_array xs \<Rightarrow> Some (filter p xs)
                       | Id_string s \<Rightarrow> None | Not_iterable \<Rightarrow> None)"

definition array_includes :: "ids_value \<Rightarrow> string \<Rightarrow> bool" where
  "array_includes v x = (case v of Falsy \<Rightarrow> False | Id_array xs \<Rightarrow> x \<in> set xs
                           | Id_string s \<Rightarrow> False | Not_iterable \<Rightarrow> False)"

definition set_add :: "'a list \<Rightarrow> 'a \<Rightarrow> 'a list" where
  "set_add acc x = (if x \<in> set acc then acc else acc @ [x])"

definition array_from_set :: "'a list \<Rightarrow> 'a list" where
  "array_from_set xs = foldl set_add [] xs"

definition push_missing :: "'a list \<Rightarrow> 'a \<Rightarrow> 'a list" where
  "push_missing xs x = (if x \<in> set xs then xs else xs @ [x])"

section \<open>Domain records (src/types/index.ts and the relay's tables)\<close>

text \<open>
  Field names carry a prefix per record (\<open>m_\<close> message, \<open>u_\<close> user, \<open>d_\<close> device, \<open>r_\<close> room,
  \<open>t_\<close> relay-side transfer), since record fields are global constants.
\<close>

datatype message_type = TextMsg | FileMsg | SystemMsg

record message =
  m_id :: string
  m_senderId :: string
  m_senderName :: string
  m_content :: string
  m_timestamp :: int
  m_roomId :: "string option"
  m_type :: message_type
  m_seq :: "int option"
  m_enc :: bool
  m_nonce :: "string option"
  m_alg :: "string option"

datatype presence = Online | Away | Offline

record user =
  u_id :: string
  u_username :: string
  u_displayName :: string
  u_isAdmin :: bool
  u_status :: presence
  u_lastSeen :: int
  u_publicKeyJwk :: "string option"

record device =
  d_id :: string
  d_name :: string
  d_ipAddress :: string
  d_userId :: "string option"
  d_isOnline :: bool
  d_lastSeen :: int

record room =
  r_id :: string
  r_name :: string
  r_participants :: "string list"
  r_createdBy :: string
  r_createdAt :: int
  r_isPublic :: bool
  r_admins :: ids_value

record chunk =
  c_data :: string
  c_nonce :: string

record server_transfer =
  t_id :: string
  t_senderId :: string
  t_senderName :: string
  t_fileName :: string
  t_fileSize :: int
  t_totalChunks :: int
  t_recipients :: "string list option"
  t_createdAt :: int
  t_completed :: bool
  t_chunks :: "(int \<times> chunk) list"

record 'pub envelope =
  epk :: 'pub
  saltB64 :: string
  nonceB64 :: string
  ctB64 :: string

record key_update_entry =
  ku_fromUserId :: "string option"
  ku_envelope :: "string envelope"
  ku_timestamp :: int

section \<open>The relay (src/app/api/ws/route.ts)\<close>

text \<open>
  The relay's state is the seven module variables that the handlers read and write. A
  request is the parsed body \<open>{type, payload}\<close>: the check of the content type and the
  parsing of the body come before everything modelled here, \<open>broadcast\<close> has an empty body,
  and the \<open>GET\<close> handler touches no state.
\<close>

record relay_state =
  messageHistory :: "message list"
  messageSeq :: int
  onlineUsers :: "(string \<times> user) list"
  deviceRegistry :: "(string \<times> device) list"
  keyUpdates :: "(string \<times> key_update_entry list) list"
  rooms :: "(string \<times> room) list"
  fileTransfers :: "(string \<times> server_transfer) list"

definition relay_init :: relay_state where
  "relay_init = \<lparr> messageHistory = [], messageSeq = 0, onlineUsers = [], deviceRegistry = [],
     keyUpdates = [], rooms = [], fileTransfers = [] \<rparr>"

subsection \<open>Request payloads\<close>

record create_room_payload =
  cr_id :: "string option"
  cr_name :: "string option"
  cr_createdBy :: "string option"
  cr_isPublic :: bool
  cr_participants :: ids_value
  cr_admins :: ids_value

record update_room_payload =
  ur_roomId :: string
  ur_byUserId :: string
  addParticipant :: "string option"
  removeParticipant :: "string option"
  addAdmin :: "string option"
  removeAdmin :: "string option"
  transferOwnerTo :: "string option"

record init_file_transfer_payload =
  it_id :: string
  it_senderId :: string
  it_senderName :: string
  it_fileName :: string
  it_fileSize :: int
  it_totalChunks :: int
  it_recipients :: "string list option"

record upload_chunk_payload =
  up_transferId :: string
  up_index :: int
  up_totalChunks :: int
  up_data :: string
  up_nonce :: string

datatype request =
    Register_user user
  | Unregister_user string
  | Heartbeat string "int option"
  | Create_room create_room_payload
  | Update_room update_room_payload
  | Delete_room string string
  | Send_message message
  | Register_device device
  | Key_update "string option" "string option" "string envelope option"
  | Init_file_transfer init_file_transfer_payload
  | Upload_chunk upload_chunk_payload
  | List_file_transfers string
  | Download_file_chunk string string int
  | Get_state
  | Unknown_type

subsection \<open>Responses\<close>

record announcement =
  an_id :: string
  an_senderId :: string
  an_senderName :: string
  an_fileName :: string
  an_fileSize :: int
  an_totalChunks :: int
  an_recipients :: "string list option"
  an_createdAt :: int
  an_completed :: bool

record transfer_listing =
  tl_id :: string
  tl_senderId :: string
  tl_senderName :: string
  tl_fileName :: string
  tl_fileSize :: int
  tl_totalChunks :: int
  tl_completed :: bool
  tl_availableChunks :: "int list"

record heartbeat_response =
  hb_onlineUsers :: "user list"
  hb_newMessages :: "message list"
  hb_lastSeq :: int
  hb_keyUpdates :: "key_update_entry list"
  hb_fileAnnouncements :: "announcement list"
  hb_devices :: "device list"
  hb_rooms :: "room list"

record state_response =
  gs_onlineUsers :: "user list"
  gs_messages :: "message list"
  gs_lastSeq :: int
  gs_devices :: "device list"
  gs_rooms :: "room list"

datatype response =
    Error_response string nat
  | Success_only
  | Register_user_ok "user list" "message list"
  | Heartbeat_ok heartbeat_response
  | Rooms_ok "room list"
  | Update_room_ok room "room list"
  | Send_message_ok message
  | Devices_ok "device list"
  | Upload_chunk_ok int
  | List_file_transfers_ok "transfer_listing list"
  | Download_file_chunk_ok int string string
  | Get_state_ok state_response

subsection \<open>Handlers\<close>

definition values_of :: "('k \<times> 'v) list \<Rightarrow> 'v list" where
  "values_of kvs = map snd kvs"

definition register_user :: "relay_state \<Rightarrow> int \<Rightarrow> user \<Rightarrow> response \<times> relay_state" where
  "register_user s now payload =
     (let s' = s\<lparr>onlineUsers :=
                  AList.update (u_id payload) (payload\<lparr>u_lastSeen := now, u_status := Online\<rparr>)
                    (onlineUsers s)\<rparr>
      in (Register_user_ok (values_of (onlineUsers s')) (messageHistory s'), s'))"

definition unregister_user :: "relay_state \<Rightarrow> string \<Rightarrow> response \<times> relay_state" where
  "unregister_user s userId = (Success_only, s\<lparr>onlineUsers := AList.delete userId (onlineUsers s)\<rparr>)"

definition seq_or_zero :: "message \<Rightarrow> int" where
  "seq_or_zero m = (case m_seq m of None \<Rightarrow> 0 | Some q \<Rightarrow> q)"

definition may_receive :: "string list option \<Rightarrow> string \<Rightarrow> bool" where
  "may_receive recipients userId =
     (case recipients of None \<Rightarrow> True | Some rs \<Rightarrow> userId \<in> set rs)"

definition announce :: "server_transfer \<Rightarrow> announcement" where
  "announce t = \<lparr> an_id = t_id t, an_senderId = t_senderId t, an_senderName = t_senderName t,
     an_fileName = t_fileName t, an_fileSize = t_fileSize t, an_totalChunks = t_totalChunks t,
     an_recipients = t_recipients t, an_createdAt = t_createdAt t, an_completed = t_completed t \<rparr>"

definition heartbeat :: "relay_state \<Rightarrow> int \<Rightarrow> string \<Rightarrow> int option \<Rightarrow> response \<times> relay_state" where
  "heartbeat s now userId payload_lastSeq =
     (let users1 = (case map_of (onlineUsers s) userId of
                      None \<Rightarrow> onlineUsers s
                    | Some u \<Rightarrow> AList.update userId (u\<lparr>u_lastSeen := now\<rparr>) (onlineUsers s));
          devices1 = map (\<lambda>(deviceId, d).
                        if d_userId d = Some userId
                        then (deviceId, d\<lparr>d_lastSeen := now, d_isOnline := True\<rparr>)
                        else (deviceId, d)) (deviceRegistry s);
          lastSeq = (case payload_lastSeq of None \<Rightarrow> 0 | Some n \<Rightarrow> n);
          newMessages = filter (\<lambda>m. seq_or_zero m > lastSeq) (messageHistory s);
          announcements = map announce
             (filter (\<lambda>t. may_receive (t_recipients t) userId) (values_of (fileTransfers s)));
          queued = (case map_of (keyUpdates s) userId of None \<Rightarrow> [] | Some q \<Rightarrow> q);
          s' = s\<lparr>onlineUsers := users1, deviceRegistry := devices1,
                 keyUpdates := AList.update userId [] (keyUpdates s)\<rparr>
      in (Heartbeat_ok \<lparr> hb_onlineUsers = values_of users1, hb_newMessages = newMessages,
            hb_lastSeq = messageSeq s, hb_keyUpdates = queued,
            hb_fileAnnouncements = announcements, hb_devices = values_of devices1,
            hb_rooms = values_of (rooms s) \<rparr>, s'))"

definition create_room :: "relay_state \<Rightarrow> int \<Rightarrow> create_room_payload \<Rightarrow> response \<times> relay_state" where
  "create_room s now payload =
     (if \<not> js_truthy (cr_id payload) \<or> \<not> js_truthy (cr_name payload)
          \<or> \<not> js_truthy (cr_createdBy payload)
      then (Error_response ''Invalid create_room payload'' 400, s)
      else if map_of (rooms s) (the (cr_id payload)) \<noteq> None
      then (Error_response ''Room already exists'' 400, s)
      else
        (case spread (or_array (cr_participants payload)) of
           None \<Rightarrow> (Error_response ''Server error'' 500, s)
         | Some listed \<Rightarrow>
             (let newRoom = \<lparr> r_id = the (cr_id payload), r_name = the (cr_name payload),
                    r_participants = array_from_set (listed @ [the (cr_createdBy payload)]),
                    r_createdBy = the (cr_createdBy payload), r_createdAt = now,
                    r_isPublic = cr_isPublic payload,
                    r_admins = or_array (cr_admins payload) \<rparr>;
                  s' = s\<lparr>rooms := AList.update (the (cr_id payload)) newRoom (rooms s)\<rparr>
              in (Rooms_ok (values_of (rooms s')), s'))))"

text \<open>
  The five mutations of \<open>update_room\<close>, in the order the handler runs them. The handler
  assigns to the fields of the stored room object, so what it has assigned when an
  operation throws stays in the table: a mutation either returns the room or throws,
  leaving the room as it is at that point.
\<close>

datatype 'a outcome = Returns 'a | Throws 'a

fun and_then :: "'a outcome \<Rightarrow> ('a \<Rightarrow> 'a outcome) \<Rightarrow> 'a outcome" where
  "and_then (Returns r) f = f r"
| "and_then (Throws r) f = Throws r"

definition keep_owner :: "room \<Rightarrow> room" where
  "keep_owner r = r\<lparr>r_participants := push_missing (r_participants r) (r_createdBy r)\<rparr>"

definition do_addParticipant :: "update_room_payload \<Rightarrow> room \<Rightarrow> room outcome" where
  "do_addParticipant payload r =
     (case addParticipant payload of
        Some x \<Rightarrow>
          if x \<noteq> [] then Returns (r\<lparr>r_participants := array_from_set (r_participants r @ [x])\<rparr>)
          else Returns r
      | None \<Rightarrow> Returns r)"

definition do_removeParticipant :: "update_room_payload \<Rightarrow> room \<Rightarrow> room outcome" where
  "do_removeParticipant payload r =
     (case removeParticipant payload of
        Some x \<Rightarrow>
          if x \<noteq> [] then
            (let r1 = r\<lparr>r_participants := filter (\<lambda>u. u \<noteq> x) (r_participants r)\<rparr>
             in if truthy (r_admins r1) then
                  (case filter_ids (\<lambda>u. u \<noteq> x) (r_admins r1) of
                     None \<Rightarrow> Throws r1
                   | Some admins \<Rightarrow> Returns (keep_owner (r1\<lparr>r_admins := Id_array admins\<rparr>)))
                else Returns (keep_owner r1))
          else Returns r
      | None \<Rightarrow> Returns r)"

definition do_addAdmin :: "update_room_payload \<Rightarrow> room \<Rightarrow> room outcome" where
  "do_addAdmin payload r =
     (case addAdmin payload of
        Some target \<Rightarrow>
          if target \<noteq> [] \<and> target \<noteq> r_createdBy r then
            (case spread (or_array (r_admins r)) of
               None \<Rightarrow> Throws r
             | Some admins \<Rightarrow>
                 (let r1 = r\<lparr>r_admins := Id_array (array_from_set (admins @ [target]))\<rparr>
                  in Returns (r1\<lparr>r_participants := push_missing (r_participants r1) target\<rparr>)))
          else Returns r
      | None \<Rightarrow> Returns r)"

definition do_removeAdmin :: "update_room_payload \<Rightarrow> room \<Rightarrow> room outcome" where
  "do_removeAdmin payload r =
     (case removeAdmin payload of
        Some x \<Rightarrow>
          if x \<noteq> [] then
            (case filter_ids (\<lambda>u. u \<noteq> x) (or_array (r_admins r)) of
               None \<Rightarrow> Throws r
             | Some admins \<Rightarrow> Returns (r\<lparr>r_admins := Id_array admins\<rparr>))
          else Returns r
      | None \<Rightarrow> Returns r)"

definition do_transferOwnerTo :: "update_room_payload \<Rightarrow> room \<Rightarrow> room outcome" where
  "do_transferOwnerTo payload r =
     (case transferOwnerTo payload of
        Some target \<Rightarrow>
          if target \<noteq> [] \<and> target \<in> set (r_participants r) then
            (let r1 = r\<lparr>r_createdBy := target\<rparr>
             in case spread (or_array (r_admins r1)) of
                  None \<Rightarrow> Throws r1
                | Some admins \<Rightarrow>
                    Returns (r1\<lparr>r_admins := Id_array (array_from_set (admins @ [ur_byUserId payload]))\<rparr>))
          else Returns r
      | None \<Rightarrow> Returns r)"

definition mutate_room :: "update_room_payload \<Rightarrow> room \<Rightarrow> room outcome" where
  "mutate_room payload r =
     and_then (and_then (and_then (and_then (do_addParticipant payload r)
       (do_removeParticipant payload)) (do_addAdmin payload)) (do_removeAdmin payload))
       (do_transferOwnerTo payload)"

definition is_room_admin :: "room \<Rightarrow> string \<Rightarrow> bool" where
  "is_room_admin r byUserId = (r_createdBy r = byUserId \<or> array_includes (r_admins r) byUserId)"

text \<open>
  When a mutation throws, the \<open>catch\<close> of \<open>POST\<close> answers 500 and \<open>rooms.set(r.id, r)\<close> is not
  reached; the room, found under \<open>payload.roomId\<close>, already holds the assignments made.
\<close>

definition update_room :: "relay_state \<Rightarrow> update_room_payload \<Rightarrow> response \<times> relay_state" where
  "update_room s payload =
     (case map_of (rooms s) (ur_roomId payload) of
        None \<Rightarrow> (Error_response ''Room not found'' 404, s)
      | Some r \<Rightarrow>
          if \<not> is_room_admin r (ur_byUserId payload) then (Error_response ''Forbidden'' 403, s)
          else
            (case mutate_room payload r of
               Throws r' \<Rightarrow>
                 (Error_response ''Server error'' 500,
                  s\<lparr>rooms := AList.update (ur_roomId payload) r' (rooms s)\<rparr>)
             | Returns r' \<Rightarrow>
                 (let s' = s\<lparr>rooms := AList.update (r_id r') r'
                                         (AList.update (ur_roomId payload) r' (rooms s))\<rparr>
                  in (Update_room_ok r' (values_of (rooms s')), s'))))"

definition delete_room :: "relay_state \<Rightarrow> string \<Rightarrow> string \<Rightarrow> response \<times> relay_state" where
  "delete_room s roomId byUserId =
     (case map_of (rooms s) roomId of
        None \<Rightarrow> (Success_only, s)
      | Some r \<Rightarrow>
          if r_createdBy r \<noteq> byUserId then (Error_response ''Forbidden'' 403, s)
          else (let s' = s\<lparr>rooms := AList.delete roomId (rooms s)\<rparr>
                in (Rooms_ok (values_of (rooms s')), s')))"

definition slice_last :: "nat \<Rightarrow> 'a list \<Rightarrow> 'a list" where
  "slice_last n xs = drop (length xs - n) xs"

definition send_message :: "relay_state \<Rightarrow> int \<Rightarrow> message \<Rightarrow> response \<times> relay_state" where
  "send_message s now payload =
     (let message = payload\<lparr>m_timestamp := now, m_seq := Some (messageSeq s + 1)\<rparr>;
          pushed = messageHistory s @ [message];
          history = (if length pushed > 200 then slice_last 200 pushed else pushed)
      in (Send_message_ok message, s\<lparr>messageSeq := messageSeq s + 1, messageHistory := history\<rparr>))"

definition register_device :: "relay_state \<Rightarrow> int \<Rightarrow> device \<Rightarrow> response \<times> relay_state" where
  "register_device s now payload =
     (let s' = s\<lparr>deviceRegistry :=
                  AList.update (d_id payload) (payload\<lparr>d_lastSeen := now, d_isOnline := True\<rparr>)
                    (deviceRegistry s)\<rparr>
      in (Devices_ok (values_of (deviceRegistry s')), s'))"

definition key_update ::
  "relay_state \<Rightarrow> int \<Rightarrow> string option \<Rightarrow> string option \<Rightarrow> string envelope option
     \<Rightarrow> response \<times> relay_state" where
  "key_update s now targetUserId fromUserId env =
     (if \<not> js_truthy targetUserId \<or> env = None
      then (Error_response ''Invalid key_update payload'' 400, s)
      else
        (let target = the targetUserId;
             queue = (case map_of (keyUpdates s) target of None \<Rightarrow> [] | Some q \<Rightarrow> q);
             entry = \<lparr> ku_fromUserId = fromUserId, ku_envelope = the env, ku_timestamp = now \<rparr>
         in (Success_only, s\<lparr>keyUpdates := AList.update target (queue @ [entry]) (keyUpdates s)\<rparr>)))"

definition init_file_transfer ::
  "relay_state \<Rightarrow> int \<Rightarrow> init_file_transfer_payload \<Rightarrow> response \<times> relay_state" where
  "init_file_transfer s now payload =
     (let t = \<lparr> t_id = it_id payload, t_senderId = it_senderId payload,
                t_senderName = it_senderName payload, t_fileName = it_fileName payload,
                t_fileSize = it_fileSize payload, t_totalChunks = it_totalChunks payload,
                t_recipients = it_recipients payload, t_createdAt = now, t_completed = False,
                t_chunks = [] \<rparr>
      in (Success_only, s\<lparr>fileTransfers := AList.update (it_id payload) t (fileTransfers s)\<rparr>))"

text \<open>
  \<open>store_chunk\<close> is the block of \<open>upload_chunk\<close> that runs on a known transfer:
  \<open>payload.totalChunks || t.totalChunks\<close> keeps the stored count when the payload's is 0.
\<close>

definition store_chunk :: "server_transfer \<Rightarrow> upload_chunk_payload \<Rightarrow> server_transfer" where
  "store_chunk t payload =
     (let t1 = t\<lparr>t_totalChunks :=
                   (if up_totalChunks payload \<noteq> 0 then up_totalChunks payload else t_totalChunks t)\<rparr>;
          t2 = t1\<lparr>t_chunks := AList.update (up_index payload)
                   \<lparr> c_data = up_data payload, c_nonce = up_nonce payload \<rparr> (t_chunks t1)\<rparr>
      in if int (length (t_chunks t2)) \<ge> t_totalChunks t2 then t2\<lparr>t_completed := True\<rparr> else t2)"

definition upload_chunk :: "relay_state \<Rightarrow> upload_chunk_payload \<Rightarrow> response \<times> relay_state" where
  "upload_chunk s payload =
     (case map_of (fileTransfers s) (up_transferId payload) of
        None \<Rightarrow> (Error_response ''Unknown transfer'' 400, s)
      | Some t \<Rightarrow>
          (Upload_chunk_ok (up_index payload),
           s\<lparr>fileTransfers :=
                AList.update (up_transferId payload) (store_chunk t payload) (fileTransfers s)\<rparr>))"

definition listing :: "server_transfer \<Rightarrow> transfer_listing" where
  "listing t = \<lparr> tl_id = t_id t, tl_senderId = t_senderId t, tl_senderName = t_senderName t,
     tl_fileName = t_fileName t, tl_fileSize = t_fileSize t, tl_totalChunks = t_totalChunks t,
     tl_completed = t_completed t, tl_availableChunks = sort (map fst (t_chunks t)) \<rparr>"

definition list_file_transfers :: "relay_state \<Rightarrow> string \<Rightarrow> response \<times> relay_state" where
  "list_file_transfers s userId =
     (List_file_transfers_ok
        (map listing
           (filter (\<lambda>t. may_receive (t_recipients t) userId)
              (filter (\<lambda>t. t_senderId t \<noteq> userId) (values_of (fileTransfers s))))), s)"

definition download_file_chunk ::
  "relay_state \<Rightarrow> string \<Rightarrow> string \<Rightarrow> int \<Rightarrow> response \<times> relay_state" where
  "download_file_chunk s userId transferId index =
     (case map_of (fileTransfers s) transferId of
        None \<Rightarrow> (Error_response ''Not found'' 404, s)
      | Some t \<Rightarrow>
          if \<not> may_receive (t_recipients t) userId then (Error_response ''Forbidden'' 403, s)
          else (case map_of (t_chunks t) index of
                  None \<Rightarrow> (Error_response ''Chunk not ready'' 404, s)
                | Some c \<Rightarrow> (Download_file_chunk_ok index (c_data c) (c_nonce c), s)))"

definition get_state :: "relay_state \<Rightarrow> response \<times> relay_state" where
  "get_state s =
     (Get_state_ok \<lparr> gs_onlineUsers = values_of (onlineUsers s), gs_messages = messageHistory s,
        gs_lastSeq = messageSeq s, gs_devices = values_of (deviceRegistry s),
        gs_rooms = values_of (rooms s) \<rparr>, s)"

text \<open>
  \<open>POST\<close> dispatches on the request type; the integer is the reading of the relay's clock
  (\<open>Date.now()\<close>) while the request is handled.
\<close>

fun POST :: "relay_state \<Rightarrow> int \<Rightarrow> request \<Rightarrow> response \<times> relay_state" where
  "POST s now (Register_user payload) = register_user s now payload"
| "POST s now (Unregister_user userId) = unregister_user s userId"
| "POST s now (Heartbeat userId lastSeq) = heartbeat s now userId lastSeq"
| "POST s now (Create_room payload) = create_room s now payload"
| "POST s now (Update_room payload) = update_room s payload"
| "POST s now (Delete_room roomId byUserId) = delete_room s roomId byUserId"
| "POST s now (Send_message payload) = send_message s now payload"
| "POST s now (Register_device payload) = register_device s now payload"
| "POST s now (Key_update targetUserId fromUserId env) = key_update s now targetUserId fromUserId env"
| "POST s now (Init_file_transfer payload) = init_file_transfer s now payload"
| "POST s now (Upload_chunk payload) = upload_chunk s payload"
| "POST s now (List_file_transfers userId) = list_file_transfers s userId"
| "POST s now (Download_file_chunk userId transferId index) =
     download_file_chunk s userId transferId index"
| "POST s now Get_state = get_state s"
| "POST s now Unknown_type = (Error_response ''Unknown type'' 400, s)"

text \<open>
  The timer that runs every 30 seconds drops the users and the devices last seen more than
  35 seconds ago.
\<close>

definition cleanup :: "relay_state \<Rightarrow> int \<Rightarrow> relay_state" where
  "cleanup s now =
     s\<lparr>onlineUsers := filter (\<lambda>(userId, u). \<not> (now - u_lastSeen u > 35000)) (onlineUsers s),
       deviceRegistry := filter (\<lambda>(deviceId, d). \<not> (now - d_lastSeen d > 35000)) (deviceRegistry s)\<rparr>"

text \<open>
  What happens to the relay: a request is handled, or the timer fires, each at a reading
  of the clock. \<open>run\<close> is the relay after a sequence of such events.
\<close>

datatype event = Request int request | Cleanup int

fun step :: "relay_state \<Rightarrow> event \<Rightarrow> relay_state" where
  "step s (Request now req) = snd (POST s now req)"
| "step s (Cleanup now) = cleanup s now"

fun run :: "relay_state \<Rightarrow> event list \<Rightarrow> relay_state" where
  "run s [] = s"
| "run s (e # es) = run (step s e) es"

section \<open>The client (src/contexts/AppContext.tsx, src/lib/local-storage.ts)\<close>

text \<open>
  A \<open>Uint8Array\<close> is a list of bytes. The object URL of an assembled file stands for the
  bytes of the \<open>Blob\<close> it was created from. \<open>Math.floor((size / total) * 100)\<close> is
  \<open>Infinity\<close> when \<open>total\<close> is 0 (the size is positive where it is computed); otherwise
  it is taken as the exact floor of the quotient. The double-precision product can fall one
  short of that for some sizes below the total, never at or above it, so the comparison
  with 100, which is all that the transfer's status depends on, is the same.
\<close>

type_synonym bytes = "8 word list"

datatype transfer_status = Pending | Transferring | Completed | Failed | Cancelled

datatype progress = Percent int | Infinity

record file_transfer =
  ft_id :: string
  ft_fileName :: string
  ft_fileSize :: int
  ft_senderId :: string
  ft_senderName :: string
  ft_receiverId :: "string option"
  ft_recipients :: "string list option"
  ft_progress :: progress
  ft_status :: transfer_status
  ft_timestamp :: int
  ft_downloadUrl :: "bytes option"
  ft_totalChunks :: "int option"

subsection \<open>localStorage\<close>

record local_storage =
  ls_messages :: "message list"
  ls_fileTransfers :: "file_transfer list"
  ls_dismissed :: "string list"
  ls_chatRooms :: "room list"

definition addMessage :: "local_storage \<Rightarrow> message \<Rightarrow> local_storage" where
  "addMessage st m =
     (if find (\<lambda>x. m_id x = m_id m) (ls_messages st) = None
      then st\<lparr>ls_messages := ls_messages st @ [m]\<rparr> else st)"

text \<open>\<open>xs[findIndex(p)] = f(xs[findIndex(p)])\<close>: only the first match changes.\<close>

fun update_first :: "('a \<Rightarrow> bool) \<Rightarrow> ('a \<Rightarrow> 'a) \<Rightarrow> 'a list \<Rightarrow> 'a list" where
  "update_first p f [] = []"
| "update_first p f (x # xs) = (if p x then f x # xs else x # update_first p f xs)"

text \<open>
  \<open>{...old, ...new}\<close> for two transfer records: every field that \<open>new\<close> carries wins; an
  optional field that \<open>new\<close> leaves out keeps the old value.
\<close>

definition spread_transfer :: "file_transfer \<Rightarrow> file_transfer \<Rightarrow> file_transfer" where
  "spread_transfer old new = new\<lparr>
      ft_receiverId := (case ft_receiverId new of None \<Rightarrow> ft_receiverId old | Some x \<Rightarrow> Some x),
      ft_recipients := (case ft_recipients new of None \<Rightarrow> ft_recipients old | Some x \<Rightarrow> Some x),
      ft_downloadUrl := (case ft_downloadUrl new of None \<Rightarrow> ft_downloadUrl old | Some x \<Rightarrow> Some x),
      ft_totalChunks := (case ft_totalChunks new of None \<Rightarrow> ft_totalChunks old | Some x \<Rightarrow> Some x)\<rparr>"

definition storage_addFileTransfer :: "local_storage \<Rightarrow> file_transfer \<Rightarrow> local_storage" where
  "storage_addFileTransfer st transfer =
     (if find (\<lambda>t. ft_id t = ft_id transfer) (ls_fileTransfers st) = None
      then st\<lparr>ls_fileTransfers := ls_fileTransfers st @ [transfer]\<rparr>
      else st\<lparr>ls_fileTransfers :=
             update_first (\<lambda>t. ft_id t = ft_id transfer) (\<lambda>old. spread_transfer old transfer)
               (ls_fileTransfers st)\<rparr>)"

definition storage_updateFileTransfer ::
  "local_storage \<Rightarrow> string \<Rightarrow> (file_transfer \<Rightarrow> file_transfer) \<Rightarrow> local_storage" where
  "storage_updateFileTransfer st transferId updates =
     st\<lparr>ls_fileTransfers := update_first (\<lambda>t. ft_id t = transferId) updates (ls_fileTransfers st)\<rparr>"

definition storage_removeFileTransfer :: "local_storage \<Rightarrow> string \<Rightarrow> local_storage" where
  "storage_removeFileTransfer st transferId =
     st\<lparr>ls_fileTransfers := filter (\<lambda>t. ft_id t \<noteq> transferId) (ls_fileTransfers st)\<rparr>"

definition addDismissedTransfer :: "local_storage \<Rightarrow> string \<Rightarrow> local_storage" where
  "addDismissedTransfer st x =
     st\<lparr>ls_dismissed := (if x \<in> set (ls_dismissed st) then ls_dismissed st else ls_dismissed st @ [x])\<rparr>"

subsection \<open>Application state\<close>

record receiver_meta =
  rm_id :: string
  rm_fileName :: string
  rm_fileSize :: int
  rm_senderId :: string
  rm_senderName :: string

text \<open>
  A receive buffer: \<open>buffers\<close> holds the slots that were assigned (a slot that is absent
  reads as \<open>null\<close> or \<open>undefined\<close>; an assignment past the end or at a negative key extends
  the JavaScript array without touching the other slots), \<open>downloaded\<close> is a \<open>Set\<close>.
\<close>

record receiver =
  rc_total :: int
  rc_buffers :: "(int \<times> bytes) list"
  rc_downloaded :: "int list"
  rc_meta :: receiver_meta

text \<open>
  The effect that polls for incoming transfers runs again whenever \<open>currentUser\<close> or
  \<open>roomKey\<close> changes. Each run has its own \<open>stop\<close> flag and its own \<open>tick\<close>, which sees the
  user and the key of that run. A tick is an \<open>async\<close> function: it runs until it waits for
  the relay, and whatever else is due runs in between (the tick of another run of the
  effect, a click on the remove button). The cleanup of a run only sets its \<open>stop\<close> flag, which a
  tick reads when it starts: a tick that is waiting goes on to its end.

  A run of the effect is a \<open>poll\<close>; its \<open>phase\<close> says what it waits for, and holds the local
  variables that the rest of the tick reads: the dismissed set as read on line 763, the
  listed transfer at hand, the buffer \<open>rec\<close> (a reference: its address in \<open>buffers\<close>), the
  index asked for, the rest of \<open>need\<close> and the rest of the listing. The two waits of a
  round trip (\<open>fetch\<close>, then \<open>json\<close>) and the decryption are one wait, since the tick
  touches nothing shared between them.
\<close>

datatype phase =
    Timer_armed
  | Await_list
  | Await_chunk "string list" transfer_listing nat int "int list" "transfer_listing list"
  | Ended

record 'k poll =
  p_user :: user
  p_roomKey :: "'k option"
  p_stop :: bool
  p_phase :: phase

text \<open>
  The state of the provider: the React state, \<open>receiversRef\<close> (a \<open>Map\<close> from transfer ids to
  buffer objects: \<open>receivers\<close> gives the address and \<open>buffers\<close> the object at an address, so
  that a tick keeps its buffer when the entry of the \<open>Map\<close> is deleted), the runs of the
  polling effect, localStorage, and the log of the requests sent to the relay (in
  order). \<open>'k\<close> is the type of a \<open>CryptoKey\<close>.
\<close>

record 'k client_state =
  currentUser :: "user option"
  messages :: "message list"
  fileTransfers_view :: "file_transfer list"
  chatRooms :: "room list"
  roomKey :: "'k option"
  receivers :: "(string \<times> nat) list"
  buffers :: "(nat \<times> receiver) list"
  polls :: "(nat \<times> 'k poll) list"
  storage :: local_storage
  sent :: "request list"

subsection \<open>mergeMessages\<close>

text \<open>
  \<open>Array.prototype.sort\<close> is stable, and for a comparator that is a consistent order its
  result is the one of a stable insertion sort.
\<close>

fun insert_by :: "('a \<Rightarrow> 'a \<Rightarrow> int) \<Rightarrow> 'a \<Rightarrow> 'a list \<Rightarrow> 'a list" where
  "insert_by cmp x [] = [x]"
| "insert_by cmp x (y # ys) = (if cmp x y \<le> 0 then x # y # ys else y # insert_by cmp x ys)"

definition js_sort :: "('a \<Rightarrow> 'a \<Rightarrow> int) \<Rightarrow> 'a list \<Rightarrow> 'a list" where
  "js_sort cmp xs = foldr (insert_by cmp) xs []"

definition compare_messages :: "message \<Rightarrow> message \<Rightarrow> int" where
  "compare_messages a b =
     (let sa = seq_or_zero a; sb = seq_or_zero b
      in if sa \<noteq> sb then sa - sb else m_timestamp a - m_timestamp b)"

definition map_set_all :: "(string \<times> message) list \<Rightarrow> message list \<Rightarrow> (string \<times> message) list" where
  "map_set_all mp ms = foldl (\<lambda>acc m. AList.update (m_id m) m acc) mp ms"

definition mergeMessages :: "message list \<Rightarrow> message list \<Rightarrow> message list" where
  "mergeMessages prev incoming =
     js_sort compare_messages (values_of (map_set_all (map_set_all [] prev) incoming))"

subsection \<open>sendMessage\<close>

text \<open>
  \<open>aesEncryptString\<close> is the platform's AES-GCM (\<open>None\<close> when it throws); \<open>newId\<close> is the
  identifier generated for the message and \<open>now\<close> the clock. The result is the new state,
  whose \<open>sent\<close> log has grown by the relay request, if one was made.
\<close>

definition plain_message :: "user \<Rightarrow> string \<Rightarrow> int \<Rightarrow> string \<Rightarrow> string option \<Rightarrow> message" where
  "plain_message u newId now content roomId =
     \<lparr> m_id = newId, m_senderId = u_id u, m_senderName = u_displayName u, m_content = content,
        m_timestamp = now, m_roomId = roomId, m_type = TextMsg, m_seq = None, m_enc = False,
        m_nonce = None, m_alg = None \<rparr>"

definition sendMessage ::
  "('k \<Rightarrow> string \<Rightarrow> (string \<times> string) option) \<Rightarrow> 'k client_state \<Rightarrow> string \<Rightarrow> int
     \<Rightarrow> string \<Rightarrow> string option \<Rightarrow> 'k client_state" where
  "sendMessage aesEncryptString s newId now content roomId =
     (case currentUser s of
        None \<Rightarrow> s
      | Some u \<Rightarrow>
          if \<not> js_truthy roomId \<and> \<not> u_isAdmin u then s
          else if js_truthy roomId \<and>
                  (case find (\<lambda>r. r_id r = the roomId) (chatRooms s) of
                     None \<Rightarrow> True
                   | Some room \<Rightarrow> \<not> (r_isPublic room \<or> u_id u \<in> set (r_participants room)))
          then s
          else
            (let plain = plain_message u newId now content roomId;
                 toSend = (case roomKey s of
                             None \<Rightarrow> plain
                           | Some k \<Rightarrow>
                               (case aesEncryptString k content of
                                  None \<Rightarrow> plain
                                | Some (nonce, ct) \<Rightarrow>
                                    plain\<lparr>m_content := ct, m_enc := True, m_nonce := Some nonce,
                                          m_alg := Some ''aes-256-gcm''\<rparr>));
                 localMessage = toSend\<lparr>m_content := content\<rparr>
             in s\<lparr>storage := addMessage (storage s) localMessage,
                  messages := mergeMessages (messages s) [localMessage],
                  sent := sent s @ [Send_message toSend]\<rparr>))"

subsection \<open>removeFileTransfer\<close>

definition removeFileTransfer :: "'k client_state \<Rightarrow> string \<Rightarrow> 'k client_state" where
  "removeFileTransfer s transferId =
     (let t = find (\<lambda>x. ft_id x = transferId) (fileTransfers_view s);
          st1 = (if Option.bind t ft_receiverId = map_option u_id (currentUser s)
                 then addDismissedTransfer (storage s) transferId else storage s);
          st2 = storage_removeFileTransfer st1 transferId
      in s\<lparr>receivers := AList.delete transferId (receivers s), storage := st2,
           fileTransfers_view := ls_fileTransfers st2\<rparr>)"

subsection \<open>The receive poll\<close>

datatype chunk_reply =
    Network_error
  | Http_error
  | Chunk_reply bool string string

definition progress_of :: "nat \<Rightarrow> int \<Rightarrow> progress" where
  "progress_of n tot = (if tot = 0 then Infinity else Percent ((int n * 100) div tot))"

fun at_least_100 :: "progress \<Rightarrow> bool" where
  "at_least_100 Infinity = True"
| "at_least_100 (Percent p) = (100 \<le> p)"

text \<open>The assembly loop: slots 0, 1, ... in order, stopping at \<open>total\<close> or at the first empty slot.\<close>

fun parts_from :: "(int \<times> bytes) list \<Rightarrow> int \<Rightarrow> nat \<Rightarrow> bytes list" where
  "parts_from slots i 0 = []"
| "parts_from slots i (Suc n) =
     (case map_of slots i of None \<Rightarrow> [] | Some b \<Rightarrow> b # parts_from slots (i + 1) n)"

definition assemble :: "receiver \<Rightarrow> bytes" where
  "assemble rec = concat (parts_from (rc_buffers rec) 0 (nat (rc_total rec)))"

definition set_view :: "'k client_state \<Rightarrow> local_storage \<Rightarrow> 'k client_state" where
  "set_view s st = s\<lparr>storage := st, fileTransfers_view := ls_fileTransfers st\<rparr>"

text \<open>
  What the loop body does once a chunk has been decrypted (lines 809 to 827): \<open>rec\<close> is the
  buffer object that the tick holds, at the address \<open>a\<close>, and \<open>transferId\<close> is \<open>t.id\<close>.
\<close>

definition record_chunk ::
  "nat \<Rightarrow> string \<Rightarrow> int \<Rightarrow> bytes \<Rightarrow> 'k client_state \<Rightarrow> 'k client_state" where
  "record_chunk a transferId index decrypted s =
     (case map_of (buffers s) a of
        None \<Rightarrow> s
      | Some rec \<Rightarrow>
          (let rec1 = rec\<lparr>rc_buffers := AList.update index decrypted (rc_buffers rec),
                          rc_downloaded := set_add (rc_downloaded rec) index\<rparr>;
               s1 = s\<lparr>buffers := AList.update a rec1 (buffers s)\<rparr>;
               prog = progress_of (length (rc_downloaded rec1)) (rc_total rec1);
               s2 = set_view s1 (storage_updateFileTransfer (storage s1) transferId
                      (\<lambda>t. t\<lparr>ft_progress := prog,
                              ft_status := (if at_least_100 prog then Completed else Transferring)\<rparr>))
           in if int (length (rc_downloaded rec1)) = rc_total rec1
              then set_view s2 (storage_updateFileTransfer (storage s2) transferId
                     (\<lambda>t. t\<lparr>ft_downloadUrl := Some (assemble rec1), ft_status := Completed,
                             ft_progress := Percent 100\<rparr>))
              else s2))"

text \<open>
  What a \<open>download_file_chunk\<close> round trip yields (lines 798 to 808): the bytes to record,
  or nothing, when the request failed, the reply is not a success, the chunk is encrypted
  and the tick has no key, or \<open>aesDecryptBytes\<close> or \<open>base64ToBytes\<close> throws (they return
  \<open>None\<close> then). In each of these cases the loop goes on to the next index.
\<close>

definition decoded ::
  "('k \<Rightarrow> string \<Rightarrow> string \<Rightarrow> bytes option) \<Rightarrow> (string \<Rightarrow> bytes option) \<Rightarrow> 'k option
     \<Rightarrow> chunk_reply \<Rightarrow> bytes option" where
  "decoded aesDecryptBytes base64ToBytes key reply =
     (case reply of
        Network_error \<Rightarrow> None
      | Http_error \<Rightarrow> None
      | Chunk_reply success data nonce \<Rightarrow>
          if \<not> success then None
          else if nonce \<noteq> [] then
            (case key of None \<Rightarrow> None | Some k \<Rightarrow> aesDecryptBytes k data nonce)
          else base64ToBytes data)"

text \<open>\<open>new Array(n)\<close> throws a \<open>RangeError\<close> unless \<open>n\<close> is an integer from 0 to 2^32 - 1.\<close>

definition valid_array_length :: "int \<Rightarrow> bool" where
  "valid_array_length n = (0 \<le> n \<and> n < 2 ^ 32)"

definition new_receiver :: "transfer_listing \<Rightarrow> receiver" where
  "new_receiver t = \<lparr> rc_total = tl_totalChunks t, rc_buffers = [], rc_downloaded = [],
     rc_meta = \<lparr> rm_id = tl_id t, rm_fileName = tl_fileName t, rm_fileSize = tl_fileSize t,
                 rm_senderId = tl_senderId t, rm_senderName = tl_senderName t \<rparr> \<rparr>"

definition local_record :: "transfer_listing \<Rightarrow> string \<Rightarrow> int \<Rightarrow> file_transfer" where
  "local_record t userId now = \<lparr> ft_id = tl_id t, ft_fileName = tl_fileName t,
     ft_fileSize = tl_fileSize t, ft_senderId = tl_senderId t, ft_senderName = tl_senderName t,
     ft_receiverId = Some userId, ft_recipients = None, ft_progress = Percent 0,
     ft_status = Transferring, ft_timestamp = now, ft_downloadUrl = None,
     ft_totalChunks = Some (tl_totalChunks t) \<rparr>"

definition need_chunks :: "receiver \<Rightarrow> int list \<Rightarrow> int list" where
  "need_chunks rec availableChunks =
     take 5 (filter (\<lambda>idx. idx \<notin> set (rc_downloaded rec)) availableChunks)"

definition set_phase :: "nat \<Rightarrow> phase \<Rightarrow> 'k client_state \<Rightarrow> 'k client_state" where
  "set_phase pid ph s =
     s\<lparr>polls := map (\<lambda>(i, p). if i = pid then (i, p\<lparr>p_phase := ph\<rparr>) else (i, p)) (polls s)\<rparr>"

definition ask :: "request \<Rightarrow> 'k client_state \<Rightarrow> 'k client_state" where
  "ask req s = s\<lparr>sent := sent s @ [req]\<rparr>"

text \<open>Lines 770 to 787: the buffer and the local record of a transfer that has none.\<close>

definition add_receiver :: "transfer_listing \<Rightarrow> string \<Rightarrow> int \<Rightarrow> 'k client_state \<Rightarrow> 'k client_state" where
  "add_receiver t userId now s =
     (let a = length (buffers s)
      in set_view (s\<lparr>receivers := AList.update (tl_id t) a (receivers s),
                     buffers := buffers s @ [(a, new_receiver t)]\<rparr>)
           (storage_addFileTransfer (storage s) (local_record t userId now)))"

text \<open>
  The loop over the listed transfers (lines 764 to 833), from the transfer at the head of
  the list until the tick waits for a chunk or the list ends. \<open>dismissed\<close> is what the tick
  read on line 763, \<open>now\<close> the clock. At the end of the list, and when a \<open>RangeError\<close> leaves
  the loop (the outer \<open>catch\<close>), \<open>finally\<close> arms the timer.
\<close>

fun next_transfer ::
  "nat \<Rightarrow> string \<Rightarrow> string list \<Rightarrow> int \<Rightarrow> transfer_listing list \<Rightarrow> 'k client_state
     \<Rightarrow> 'k client_state" where
  "next_transfer pid userId dismissed now [] s = set_phase pid Timer_armed s"
| "next_transfer pid userId dismissed now (t # ts) s =
     (if tl_id t \<in> set dismissed then next_transfer pid userId dismissed now ts s
      else if tl_senderId t = userId then next_transfer pid userId dismissed now ts s
      else if map_of (receivers s) (tl_id t) = None \<and> \<not> valid_array_length (tl_totalChunks t)
      then set_phase pid Timer_armed s
      else
        (let s1 = (if map_of (receivers s) (tl_id t) = None then add_receiver t userId now s else s)
         in case Option.bind (map_of (receivers s1) (tl_id t))
                   (\<lambda>a. map_option (Pair a) (map_of (buffers s1) a)) of
              None \<Rightarrow> set_phase pid Timer_armed s1
            | Some (a, rec) \<Rightarrow>
                (case need_chunks rec (tl_availableChunks t) of
                   [] \<Rightarrow> next_transfer pid userId dismissed now ts s1
                 | index # later \<Rightarrow>
                     set_phase pid (Await_chunk dismissed t a index later ts)
                       (ask (Download_file_chunk userId (tl_id t) index) s1))))"

text \<open>
  A tick starts (line 754): it returns at once when its run of the effect was cleaned
  up, and else sends \<open>list_file_transfers\<close>.
\<close>

definition tick_starts :: "nat \<Rightarrow> 'k client_state \<Rightarrow> 'k client_state" where
  "tick_starts pid s =
     (case map_of (polls s) pid of
        None \<Rightarrow> s
      | Some p \<Rightarrow>
          if p_stop p then set_phase pid Ended s
          else set_phase pid Await_list (ask (List_file_transfers (u_id (p_user p))) s))"

text \<open>
  \<open>currentUser\<close> or \<open>roomKey\<close> is set: the cleanup of the last run of the effect sets its
  \<open>stop\<close> flag, and with a user the effect runs again and calls its \<open>tick\<close>.
\<close>

definition set_identity :: "user option \<Rightarrow> 'k option \<Rightarrow> 'k client_state \<Rightarrow> 'k client_state" where
  "set_identity u k s =
     (let stopped = map (\<lambda>(i, p). (i, p\<lparr>p_stop := True\<rparr>)) (polls s);
          s1 = s\<lparr>currentUser := u, roomKey := k, polls := stopped\<rparr>
      in case u of
           None \<Rightarrow> s1
         | Some usr \<Rightarrow>
             tick_starts (length stopped)
               (s1\<lparr>polls := stopped @ [(length stopped,
                     \<lparr> p_user = usr, p_roomKey = k, p_stop = False, p_phase = Timer_armed \<rparr>)]\<rparr>))"

text \<open>
  What can happen to the provider: the identity is set, the timer of a poll fires, the
  reply to the \<open>list_file_transfers\<close> of a poll arrives (\<open>None\<close> when the request failed or
  the reply carries no \<open>transfers\<close> array), the reply to its \<open>download_file_chunk\<close> arrives,
  the user removes a transfer from the list. The integer is the clock. \<open>None\<close> is the result
  of an action that cannot happen: a reply or a timer that the poll does not wait for.
\<close>

datatype 'k action =
    Set_identity "user option" "'k option"
  | Timer_fires nat
  | Listing_arrives nat int "transfer_listing list option"
  | Chunk_arrives nat int chunk_reply
  | Remove string

fun act ::
  "('k \<Rightarrow> string \<Rightarrow> string \<Rightarrow> bytes option) \<Rightarrow> (string \<Rightarrow> bytes option)
     \<Rightarrow> 'k client_state \<Rightarrow> 'k action \<Rightarrow> 'k client_state option" where
  "act aesDecryptBytes base64ToBytes s (Set_identity u k) = Some (set_identity u k s)"
| "act aesDecryptBytes base64ToBytes s (Timer_fires pid) =
     (case map_option p_phase (map_of (polls s) pid) of
        Some Timer_armed \<Rightarrow> Some (tick_starts pid s)
      | _ \<Rightarrow> None)"
| "act aesDecryptBytes base64ToBytes s (Listing_arrives pid now listed) =
     (case map_of (polls s) pid of
        None \<Rightarrow> None
      | Some p \<Rightarrow>
          (case p_phase p of
             Await_list \<Rightarrow>
               (case listed of
                  None \<Rightarrow> Some (set_phase pid Timer_armed s)
                | Some transfers \<Rightarrow>
                    Some (next_transfer pid (u_id (p_user p)) (ls_dismissed (storage s)) now
                            transfers s))
           | _ \<Rightarrow> None))"
| "act aesDecryptBytes base64ToBytes s (Chunk_arrives pid now reply) =
     (case map_of (polls s) pid of
        None \<Rightarrow> None
      | Some p \<Rightarrow>
          (case p_phase p of
             Await_chunk dismissed t a index later ts \<Rightarrow>
               (let s1 = (case decoded aesDecryptBytes base64ToBytes (p_roomKey p) reply of
                            None \<Rightarrow> s
                          | Some decrypted \<Rightarrow> record_chunk a (tl_id t) index decrypted s)
                in case later of
                     [] \<Rightarrow> Some (next_transfer pid (u_id (p_user p)) dismissed now ts s1)
                   | i # rest \<Rightarrow>
                       Some (set_phase pid (Await_chunk dismissed t a i rest ts)
                               (ask (Download_file_chunk (u_id (p_user p)) (tl_id t) i) s1)))
           | _ \<Rightarrow> None))"
| "act aesDecryptBytes base64ToBytes s (Remove transferId) = Some (removeFileTransfer s transferId)"

fun acts ::
  "('k \<Rightarrow> string \<Rightarrow> string \<Rightarrow> bytes option) \<Rightarrow> (string \<Rightarrow> bytes option)
     \<Rightarrow> 'k client_state \<Rightarrow> 'k action list \<Rightarrow> 'k client_state option" where
  "acts aesDecryptBytes base64ToBytes s [] = Some s"
| "acts aesDecryptBytes base64ToBytes s (x # xs) =
     (case act aesDecryptBytes base64ToBytes s x of
        None \<Rightarrow> None
      | Some s' \<Rightarrow> acts aesDecryptBytes base64ToBytes s' xs)"

text \<open>What the client reads of a relay response: the listing, and the reply to a chunk request.\<close>

definition listed_in :: "response \<Rightarrow> transfer_listing list option" where
  "listed_in r = (case r of List_file_transfers_ok transfers \<Rightarrow> Some transfers | _ \<Rightarrow> None)"

definition chunk_in :: "response \<Rightarrow> chunk_reply" where
  "chunk_in r = (case r of Download_file_chunk_ok index d n \<Rightarrow> Chunk_reply True d n | _ \<Rightarrow> Http_error)"

section \<open>Key envelopes (the crypto utilities at the end of src/contexts/AppContext.tsx)\<close>

text \<open>
  The utilities call the platform's WebCrypto, which is not code of this repository: its
  operations are the fields of a record, each returning \<open>None\<close> where the platform throws.
  \<open>'k\<close> is an AES \<open>CryptoKey\<close>, \<open>'pub\<close> and \<open>'priv\<close> are the two halves of an ECDH key pair
  (as JWK). What the platform draws at random (the ephemeral key pair, the salt and the
  nonce) is an argument of the function that asks for it.
\<close>

record ('k, 'pub, 'priv) webcrypto =
  hasSubtle :: bool
  ecdh_deriveBits :: "'priv \<Rightarrow> 'pub \<Rightarrow> bytes option"
  hkdf_deriveKey :: "bytes \<Rightarrow> bytes \<Rightarrow> string \<Rightarrow> 'k option"
  aes_gcm_encrypt :: "'k \<Rightarrow> bytes \<Rightarrow> bytes \<Rightarrow> bytes option"
  aes_gcm_decrypt :: "'k \<Rightarrow> bytes \<Rightarrow> bytes \<Rightarrow> bytes option"
  export_raw :: "'k \<Rightarrow> bytes option"
  import_raw :: "bytes \<Rightarrow> 'k option"
  btoa :: "string \<Rightarrow> string"
  atob :: "string \<Rightarrow> string option"

definition bytesToBase64 :: "('k, 'pub, 'priv) webcrypto \<Rightarrow> bytes \<Rightarrow> string" where
  "bytesToBase64 wc bs = btoa wc (map (\<lambda>b. char_of (unat b)) bs)"

definition base64ToBytes :: "('k, 'pub, 'priv) webcrypto \<Rightarrow> string \<Rightarrow> bytes option" where
  "base64ToBytes wc b64 = map_option (map (\<lambda>c. of_nat (of_char c))) (atob wc b64)"

definition exportAesRaw :: "('k, 'pub, 'priv) webcrypto \<Rightarrow> 'k \<Rightarrow> bytes option" where
  "exportAesRaw wc key = (if \<not> hasSubtle wc then None else export_raw wc key)"

definition importAesRaw :: "('k, 'pub, 'priv) webcrypto \<Rightarrow> bytes \<Rightarrow> 'k option" where
  "importAesRaw wc raw = (if \<not> hasSubtle wc then None else import_raw wc raw)"

definition aesEncryptBytes ::
  "('k, 'pub, 'priv) webcrypto \<Rightarrow> bytes \<Rightarrow> 'k \<Rightarrow> bytes \<Rightarrow> (string \<times> string) option" where
  "aesEncryptBytes wc drawn_nonce key data =
     (if \<not> hasSubtle wc then None
      else do {
        ct \<leftarrow> aes_gcm_encrypt wc key drawn_nonce data;
        Some (bytesToBase64 wc drawn_nonce, bytesToBase64 wc ct)
      })"

definition aesDecryptBytes ::
  "('k, 'pub, 'priv) webcrypto \<Rightarrow> 'k \<Rightarrow> string \<Rightarrow> string \<Rightarrow> bytes option" where
  "aesDecryptBytes wc key ct_b64 nonce_b64 =
     (if \<not> hasSubtle wc then None
      else do {
        nonce \<leftarrow> base64ToBytes wc nonce_b64;
        ct \<leftarrow> base64ToBytes wc ct_b64;
        aes_gcm_decrypt wc key nonce ct
      })"

definition generateECDH :: "('k, 'pub, 'priv) webcrypto \<Rightarrow> 'pub \<times> 'priv \<Rightarrow> ('pub \<times> 'priv) option" where
  "generateECDH wc drawn_pair = (if \<not> hasSubtle wc then None else Some drawn_pair)"

definition deriveSharedBits :: "('k, 'pub, 'priv) webcrypto \<Rightarrow> 'priv \<Rightarrow> 'pub \<Rightarrow> bytes option" where
  "deriveSharedBits wc privateJwk otherPublicJwk =
     (if \<not> hasSubtle wc then None else ecdh_deriveBits wc privateJwk otherPublicJwk)"

definition deriveAesFromShared :: "('k, 'pub, 'priv) webcrypto \<Rightarrow> bytes \<Rightarrow> bytes \<Rightarrow> 'k option" where
  "deriveAesFromShared wc shared salt =
     (if \<not> hasSubtle wc then None else hkdf_deriveKey wc shared salt ''lanhub-roomkey-v1'')"

definition packRoomKeyForRecipient ::
  "('k, 'pub, 'priv) webcrypto \<Rightarrow> 'pub \<times> 'priv \<Rightarrow> bytes \<Rightarrow> bytes \<Rightarrow> 'k \<Rightarrow> 'pub
     \<Rightarrow> 'pub envelope option" where
  "packRoomKeyForRecipient wc drawn_pair drawn_salt drawn_nonce room_key recipientPublicJwk =
     do {
       ephem \<leftarrow> generateECDH wc drawn_pair;
       shared \<leftarrow> deriveSharedBits wc (snd ephem) recipientPublicJwk;
       aes \<leftarrow> deriveAesFromShared wc shared drawn_salt;
       rawRoomKey \<leftarrow> exportAesRaw wc room_key;
       enc \<leftarrow> aesEncryptBytes wc drawn_nonce aes rawRoomKey;
       Some \<lparr> epk = fst ephem, saltB64 = bytesToBase64 wc drawn_salt,
              nonceB64 = fst enc, ctB64 = snd enc \<rparr>
     }"

definition unpackRoomKeyFromSender ::
  "('k, 'pub, 'priv) webcrypto \<Rightarrow> 'priv \<Rightarrow> 'pub \<Rightarrow> string \<Rightarrow> string \<Rightarrow> string \<Rightarrow> 'k option" where
  "unpackRoomKeyFromSender wc privateJwk sender_epk salt_b64 nonce_b64 ct_b64 =
     do {
       shared \<leftarrow> deriveSharedBits wc privateJwk sender_epk;
       salt \<leftarrow> base64ToBytes wc salt_b64;
       aes \<leftarrow> deriveAesFromShared wc shared salt;
       raw \<leftarrow> aesDecryptBytes wc aes ct_b64 nonce_b64;
       importAesRaw wc raw
     }"

text \<open>
  What the round trip needs of the platform. \<open>key_pair pub priv\<close> says that the two halves
  belong to one generated pair.
  \<^item> ECDH: two pairs agree on the shared bits, whichever side derives them.
  \<^item> HKDF derives a key from any shared bits and salt.
  \<^item> AES-GCM decrypts, under the same key and nonce, what it encrypted.
  \<^item> \<open>atob\<close> inverts \<open>btoa\<close>.
  \<^item> The raw bytes exported from a key import to a key with the same raw bytes.
\<close>

definition webcrypto_laws :: "('k, 'pub, 'priv) webcrypto \<Rightarrow> ('pub \<Rightarrow> 'priv \<Rightarrow> bool) \<Rightarrow> bool" where
  "webcrypto_laws wc key_pair =
     ((\<forall>A a B b. key_pair A a \<and> key_pair B b \<longrightarrow>
          (\<exists>z. ecdh_deriveBits wc a B = Some z \<and> ecdh_deriveBits wc b A = Some z))
      \<and> (\<forall>shared salt info. \<exists>k. hkdf_deriveKey wc shared salt info = Some k)
      \<and> (\<forall>k iv m. \<exists>c. aes_gcm_encrypt wc k iv m = Some c \<and> aes_gcm_decrypt wc k iv c = Some m)
      \<and> (\<forall>x. atob wc (btoa wc x) = Some x)
      \<and> (\<forall>k r. export_raw wc k = Some r \<longrightarrow>
            (\<exists>k'. import_raw wc r = Some k' \<and> export_raw wc k' = Some r)))"

section \<open>Properties\<close>

subsection \<open>Relay history\<close>

text \<open>
  After \<open>n\<close> messages the history holds the messages numbered \<open>max 1 (n - 199)\<close> to \<open>n\<close>.
\<close>

definition history_inv :: "relay_state \<Rightarrow> bool" where
  "history_inv s = (0 \<le> messageSeq s \<and>
     map m_seq (messageHistory s) = map Some [max 1 (messageSeq s - 199) .. messageSeq s])"


subsection \<open>Rooms\<close>

text \<open>
  Of a room: its admins are an array and its owner is a participant; moreover every admin
  is a participant. Of an \<open>update_room\<close> payload: it removes its own sender from the
  participants and transfers the ownership. Of an event: it is a \<open>delete_room\<close> for the
  room; it is an \<open>update_room\<close> for the room with such a payload. Of the relay: every
  room is stored under its own id.
\<close>

definition owner_inv :: "room \<Rightarrow> bool" where
  "owner_inv r = (r_createdBy r \<in> set (r_participants r)
                  \<and> (case r_admins r of Id_array admins \<Rightarrow> True | _ \<Rightarrow> False))"

definition room_inv :: "room \<Rightarrow> bool" where
  "room_inv r = (r_createdBy r \<in> set (r_participants r)
                 \<and> (case r_admins r of Id_array admins \<Rightarrow> set admins \<subseteq> set (r_participants r)
                     | _ \<Rightarrow> False))"

definition leaves_and_transfers :: "update_room_payload \<Rightarrow> bool" where
  "leaves_and_transfers p =
     (js_truthy (removeParticipant p) \<and> removeParticipant p = Some (ur_byUserId p)
      \<and> js_truthy (transferOwnerTo p))"

fun deletes :: "string \<Rightarrow> event \<Rightarrow> bool" where
  "deletes rid (Request now (Delete_room roomId byUserId)) = (roomId = rid)"
| "deletes rid e = False"

fun leaving_transfer :: "string \<Rightarrow> event \<Rightarrow> bool" where
  "leaving_transfer rid (Request now (Update_room p)) = (ur_roomId p = rid \<and> leaves_and_transfers p)"
| "leaving_transfer rid e = False"

definition keys_are_ids :: "relay_state \<Rightarrow> bool" where
  "keys_are_ids s = list_all (\<lambda>(k, r). r_id r = k) (rooms s)"

text \<open>Of a mutation: it returns a room with a given property; the room it leaves in the table.\<close>

fun returns_with :: "('a \<Rightarrow> bool) \<Rightarrow> 'a outcome \<Rightarrow> bool" where
  "returns_with P (Returns r) = P r"
| "returns_with P (Throws r) = False"

fun left_as :: "'a outcome \<Rightarrow> 'a" where
  "left_as (Returns r) = r"
| "left_as (Throws r) = r"

text \<open>
  While a request is handled: every admin is a participant, and so is the sender if the
  request transfers the ownership.
\<close>

definition sender_inside :: "update_room_payload \<Rightarrow> room \<Rightarrow> bool" where
  "sender_inside p r =
     (room_inv r \<and> (js_truthy (transferOwnerTo p) \<longrightarrow> ur_byUserId p \<in> set (r_participants r)))"


subsection \<open>Message order\<close>

definition ordered_before :: "message \<Rightarrow> message \<Rightarrow> bool" where
  "ordered_before a b =
     (seq_or_zero a < seq_or_zero b \<or> (seq_or_zero a = seq_or_zero b \<and> m_timestamp a \<le> m_timestamp b))"


subsection \<open>Transfers\<close>

text \<open>
  The chunk indices of one transfer that the client asked the relay for, in order; the
  receive buffer after one more chunk; a relay-side transfer that has received the
  indices \<open>D\<close> under the chunk count \<open>N\<close>.
\<close>

fun chunk_requests :: "string \<Rightarrow> request list \<Rightarrow> int list" where
  "chunk_requests T [] = []"
| "chunk_requests T (Download_file_chunk u tid i # rs) =
     (if tid = T then i # chunk_requests T rs else chunk_requests T rs)"
| "chunk_requests T (r # rs) = chunk_requests T rs"

definition with_chunk :: "receiver \<Rightarrow> int \<Rightarrow> bytes \<Rightarrow> receiver" where
  "with_chunk rec i b = rec\<lparr>rc_buffers := AList.update i b (rc_buffers rec),
                            rc_downloaded := set_add (rc_downloaded rec) i\<rparr>"

definition uploads_ok :: "int \<Rightarrow> server_transfer \<Rightarrow> int set \<Rightarrow> bool" where
  "uploads_ok N t D =
     (t_totalChunks t = N \<and> distinct (map fst (t_chunks t)) \<and> fst ` set (t_chunks t) = D
      \<and> (t_completed t \<longleftrightarrow> N \<le> int (length (t_chunks t))))"


section \<open>Sample inputs\<close>

definition demo_room_payload :: create_room_payload where
  "demo_room_payload = \<lparr> cr_id = Some ''r1'', cr_name = Some ''lobby'', cr_createdBy = Some ''alice'',
     cr_isPublic = False, cr_participants = Id_array [''bob''], cr_admins = Falsy \<rparr>"

definition no_update :: update_room_payload where
  "no_update = \<lparr> ur_roomId = ''r1'', ur_byUserId = ''alice'', addParticipant = None,
     removeParticipant = None, addAdmin = None, removeAdmin = None, transferOwnerTo = None \<rparr>"

definition toy_crypto :: "(bytes, nat, nat) webcrypto" where
  "toy_crypto = \<lparr> hasSubtle = True,
     ecdh_deriveBits = (\<lambda>a B. Some [of_nat (a * B)]),
     hkdf_deriveKey = (\<lambda>shared salt info. Some (shared @ salt)),
     aes_gcm_encrypt = (\<lambda>k iv m. Some (k @ iv @ m)),
     aes_gcm_decrypt = (\<lambda>k iv c. if take (length (k @ iv)) c = k @ iv
                                  then Some (drop (length (k @ iv)) c) else None),
     export_raw = Some, import_raw = Some,
     btoa = rev, atob = (\<lambda>x. Some (rev x)) \<rparr>"


definition demo_message :: "string \<Rightarrow> int option \<Rightarrow> int \<Rightarrow> message" where
  "demo_message i q ts = \<lparr> m_id = i, m_senderId = ''alice'', m_senderName = ''Alice'',
     m_content = ''hello'', m_timestamp = ts, m_roomId = None, m_type = TextMsg, m_seq = q,
     m_enc = False, m_nonce = None, m_alg = None \<rparr>"

definition demo_user :: user where
  "demo_user = \<lparr> u_id = ''bob'', u_username = ''bob'', u_displayName = ''Bob'', u_isAdmin = False,
     u_status = Online, u_lastSeen = 0, u_publicKeyJwk = None \<rparr>"

definition demo_transfer :: file_transfer where
  "demo_transfer = \<lparr> ft_id = ''f1'', ft_fileName = ''notes.txt'', ft_fileSize = 4,
     ft_senderId = ''alice'', ft_senderName = ''Alice'', ft_receiverId = Some ''bob'',
     ft_recipients = None, ft_progress = Percent 50, ft_status = Transferring, ft_timestamp = 1,
     ft_downloadUrl = None, ft_totalChunks = Some 2 \<rparr>"

definition demo_receiver :: receiver where
  "demo_receiver = \<lparr> rc_total = 2, rc_buffers = [(0, [1, 2])], rc_downloaded = [0],
     rc_meta = \<lparr> rm_id = ''f1'', rm_fileName = ''notes.txt'', rm_fileSize = 4,
                 rm_senderId = ''alice'', rm_senderName = ''Alice'' \<rparr> \<rparr>"

definition empty_storage :: local_storage where
  "empty_storage = \<lparr> ls_messages = [], ls_fileTransfers = [], ls_dismissed = [], ls_chatRooms = [] \<rparr>"

text \<open>
  The provider before anyone has signed in; with bob signed in and nothing else; with the
  first of the two chunks of the transfer \<open>f1\<close> received.
\<close>

definition signed_out :: "unit client_state" where
  "signed_out = \<lparr> currentUser = None, messages = [], fileTransfers_view = [],
     chatRooms = [], roomKey = None, receivers = [], buffers = [], polls = [],
     storage = empty_storage, sent = [] \<rparr>"

definition fresh_client :: "unit client_state" where
  "fresh_client = signed_out\<lparr> currentUser := Some demo_user \<rparr>"

definition demo_client :: "unit client_state" where
  "demo_client = fresh_client\<lparr> fileTransfers_view := [demo_transfer],
     receivers := [(''f1'', 0)], buffers := [(0, demo_receiver)],
     storage := empty_storage\<lparr>ls_fileTransfers := [demo_transfer]\<rparr> \<rparr>"

definition demo_listing :: "int list \<Rightarrow> transfer_listing" where
  "demo_listing available = \<lparr> tl_id = ''f1'', tl_senderId = ''alice'', tl_senderName = ''Alice'',
     tl_fileName = ''notes.txt'', tl_fileSize = 4, tl_totalChunks = 2, tl_completed = True,
     tl_availableChunks = available \<rparr>"

text \<open>
  A base64 decoder that knows two strings (the encodings of \<open>''hi''\<close>, the bytes 104 and
  105, and of \<open>''yo''\<close>, the bytes 121 and 111) and throws on any other; a decryption and an
  encryption that throw; the reply to a chunk request that carries the first string,
  not encrypted.
\<close>

definition demo_base64 :: "string \<Rightarrow> bytes option" where
  "demo_base64 d = (if d = ''aGk='' then Some [104, 105]
                    else if d = ''eW8='' then Some [121, 111] else None)"

definition no_encrypt :: "unit \<Rightarrow> string \<Rightarrow> (string \<times> string) option" where
  "no_encrypt k content = None"

definition no_decrypt :: "unit \<Rightarrow> string \<Rightarrow> string \<Rightarrow> bytes option" where
  "no_decrypt k d n = None"

definition hi_chunk :: chunk_reply where
  "hi_chunk = Chunk_reply True ''aGk='' []"

text \<open>
  On the relay: alice announces the transfer \<open>f1\<close> of two chunks, or \<open>g1\<close> by the same
  payload under another id, and uploads a chunk of \<open>f1\<close>, unencrypted, with the data
  \<open>''aGk=''\<close> unless another is given.
\<close>

definition demo_init :: init_file_transfer_payload where
  "demo_init = \<lparr> it_id = ''f1'', it_senderId = ''alice'', it_senderName = ''Alice'',
     it_fileName = ''notes.txt'', it_fileSize = 4, it_totalChunks = 2, it_recipients = None \<rparr>"

definition demo_upload :: "int \<Rightarrow> upload_chunk_payload" where
  "demo_upload i = \<lparr> up_transferId = ''f1'', up_index = i, up_totalChunks = 2,
     up_data = ''aGk='', up_nonce = [] \<rparr>"

text \<open>
  The relay when \<open>g1\<close> and \<open>f1\<close> are announced and \<open>f1\<close> is uploaded in full, and later, when
  the first chunk of \<open>g1\<close> has arrived. The relay when \<open>f1\<close> is announced with three chunks
  and the first two are uploaded, and later, when the sender has uploaded chunk 1 again
  with other data.
\<close>

definition relay_f1_full :: relay_state where
  "relay_f1_full = run relay_init
     [Request 1 (Init_file_transfer (demo_init\<lparr>it_id := ''g1''\<rparr>)),
      Request 2 (Init_file_transfer demo_init),
      Request 3 (Upload_chunk (demo_upload 0)), Request 4 (Upload_chunk (demo_upload 1))]"

definition relay_g1_started :: relay_state where
  "relay_g1_started = run relay_f1_full
     [Request 15 (Upload_chunk ((demo_upload 0)\<lparr>up_transferId := ''g1''\<rparr>))]"

definition relay_f1_started :: relay_state where
  "relay_f1_started = run relay_init
     [Request 1 (Init_file_transfer (demo_init\<lparr>it_totalChunks := 3\<rparr>)),
      Request 2 (Upload_chunk ((demo_upload 0)\<lparr>up_totalChunks := 3\<rparr>)),
      Request 3 (Upload_chunk ((demo_upload 1)\<lparr>up_totalChunks := 3\<rparr>))]"

definition relay_f1_again :: relay_state where
  "relay_f1_again = run relay_f1_started
     [Request 15 (Upload_chunk ((demo_upload 1)\<lparr>up_totalChunks := 3, up_data := ''eW8=''\<rparr>))]"

text \<open>
  What the client receives when the relay, in a given state, answers its
  \<open>list_file_transfers\<close> and its \<open>download_file_chunk\<close>.
\<close>

definition listing_from :: "relay_state \<Rightarrow> int \<Rightarrow> string \<Rightarrow> transfer_listing list option" where
  "listing_from relay now userId = listed_in (fst (POST relay now (List_file_transfers userId)))"

definition chunk_from :: "relay_state \<Rightarrow> int \<Rightarrow> string \<Rightarrow> string \<Rightarrow> int \<Rightarrow> chunk_reply" where
  "chunk_from relay now userId transferId index =
     chunk_in (fst (POST relay now (Download_file_chunk userId transferId index)))"

text \<open>
  Bob's provider while he dismisses a finished transfer. He signs in; the first tick
  finds \<open>g1\<close> without chunks and \<open>f1\<close> with both, and downloads \<open>f1\<close>; the second tick finds a
  chunk of \<open>g1\<close> and asks for it. \<open>dismissal\<close> goes on from there: bob removes \<open>f1\<close> from his
  list while the tick waits, then the chunk of \<open>g1\<close> arrives. \<open>after_dismissal\<close> is the rest:
  the replies to what the tick asks next, and the tick after it.
\<close>

definition before_dismissal :: "unit action list" where
  "before_dismissal =
     [Set_identity (Some demo_user) None,
      Listing_arrives 0 10 (listing_from relay_f1_full 10 ''bob''),
      Chunk_arrives 0 11 (chunk_from relay_f1_full 11 ''bob'' ''f1'' 0),
      Chunk_arrives 0 12 (chunk_from relay_f1_full 12 ''bob'' ''f1'' 1),
      Timer_fires 0,
      Listing_arrives 0 20 (listing_from relay_g1_started 20 ''bob'')]"

definition dismissal :: "unit action list" where
  "dismissal = [Remove ''f1'', Chunk_arrives 0 21 (chunk_from relay_g1_started 21 ''bob'' ''g1'' 0)]"

definition after_dismissal :: "unit action list" where
  "after_dismissal =
     [Chunk_arrives 0 22 (chunk_from relay_g1_started 22 ''bob'' ''f1'' 0),
      Chunk_arrives 0 23 (chunk_from relay_g1_started 23 ''bob'' ''f1'' 1),
      Timer_fires 0,
      Listing_arrives 0 30 (listing_from relay_g1_started 30 ''bob'')]"

text \<open>
  Bob's provider while two ticks overlap. He signs in and the first tick asks for chunk 0
  of \<open>f1\<close>; his room key is set while it waits, so the effect runs again and its tick asks
  for the same chunk. \<open>first_tick\<close> is the rest of the first tick: the replies for the
  chunks 0 and 1. \<open>second_tick\<close> is the rest of the second: the reply for chunk 0, and the
  reply for chunk 1 as the relay gives it after the sender has uploaded that chunk again.
\<close>

definition two_ticks :: "unit action list" where
  "two_ticks =
     [Set_identity (Some demo_user) None,
      Listing_arrives 0 10 (listing_from relay_f1_started 10 ''bob''),
      Set_identity (Some demo_user) (Some ()),
      Listing_arrives 1 11 (listing_from relay_f1_started 11 ''bob'')]"

definition first_tick :: "unit action list" where
  "first_tick =
     [Chunk_arrives 0 12 (chunk_from relay_f1_started 12 ''bob'' ''f1'' 0),
      Chunk_arrives 0 13 (chunk_from relay_f1_started 13 ''bob'' ''f1'' 1)]"

definition second_tick :: "unit action list" where
  "second_tick =
     [Chunk_arrives 1 14 (chunk_from relay_f1_started 14 ''bob'' ''f1'' 0),
      Chunk_arrives 1 16 (chunk_from relay_f1_again 16 ''bob'' ''f1'' 1)]"

text \<open>What the statements below observe of a transfer, on the relay and on the client.\<close>

definition relay_summary :: "server_transfer \<Rightarrow> int \<times> int list \<times> bool" where
  "relay_summary t = (t_totalChunks t, map fst (t_chunks t), t_completed t)"

definition local_summary :: "file_transfer \<Rightarrow> string \<times> transfer_status \<times> bytes option" where
  "local_summary t = (ft_id t, ft_status t, ft_downloadUrl t)"

definition buffer_summary :: "receiver \<Rightarrow> int \<times> int list \<times> (int \<times> bytes) list" where
  "buffer_summary r = (rc_total r, rc_downloaded r, rc_buffers r)"

definition local_list :: "'k client_state \<Rightarrow> (string \<times> transfer_status \<times> bytes option) list" where
  "local_list s = map local_summary (fileTransfers_view s)"

definition stored_list :: "'k client_state \<Rightarrow> (string \<times> transfer_status \<times> bytes option) list" where
  "stored_list s = map local_summary (ls_fileTransfers (storage s))"

definition dismissed_list :: "'k client_state \<Rightarrow> string list" where
  "dismissed_list s = ls_dismissed (storage s)"

definition buffer_of :: "string \<Rightarrow> 'k client_state \<Rightarrow> (int \<times> int list \<times> (int \<times> bytes) list) option" where
  "buffer_of T s =
     map_option buffer_summary (Option.bind (map_of (receivers s) T) (map_of (buffers s)))"

definition asked_of :: "string \<Rightarrow> 'k client_state \<Rightarrow> int list" where
  "asked_of T s = chunk_requests T (sent s)"

section \<open>Proofs\<close>

lemma run_append: "run s (xs @ ys) = run (run s xs) ys"
  by (induction xs arbitrary: s) auto

subsection \<open>The message history (C9, C6)\<close>

lemma slice_last_short: "length xs \<le> n \<Longrightarrow> slice_last n xs = xs"
  by (simp add: slice_last_def)

lemma upto_snoc: "a \<le> n + 1 \<Longrightarrow> [a..n] @ [n + 1] = [a..n + 1]"
  using upto_rec2 [of a "n + 1"] by simp

lemma drop1_upto: "a \<le> b \<Longrightarrow> drop 1 [a..b] = [a + 1..b]"
  using upto_rec1 [of a b] by simp

lemma history_inv_init: "history_inv relay_init"
  by (simp add: history_inv_def relay_init_def)

lemma history_inv_send:
  assumes "history_inv s"
  shows "history_inv (snd (send_message s now p))"
proof -
  let ?n = "messageSeq s"
  let ?a = "max 1 (?n - 199)"
  let ?m = "p\<lparr>m_timestamp := now, m_seq := Some (?n + 1)\<rparr>"
  let ?pushed = "messageHistory s @ [?m]"
  from assms have n0: "0 \<le> ?n" and h: "map m_seq (messageHistory s) = map Some [?a..?n]"
    by (simp_all add: history_inv_def)
  have e: "[?a..?n + 1] = [?a..?n] @ [?n + 1]"
    using n0 upto_snoc [of ?a ?n] by simp
  have seqs: "map m_seq ?pushed = map Some [?a..?n + 1]"
    unfolding e using h by simp
  have len: "length ?pushed = nat (?n + 2 - ?a)"
    using arg_cong [OF seqs, of length] by simp
  show ?thesis
  proof (cases "length ?pushed > 200")
    case True
    with len n0 have a: "?a = ?n - 199" and big: "200 \<le> ?n" by linarith+
    from len a have l201: "length ?pushed - 200 = 1" by simp
    have "map m_seq (slice_last 200 ?pushed) = drop 1 (map m_seq ?pushed)"
      unfolding slice_last_def l201 by (simp only: drop_map)
    also have "\<dots> = map Some (drop 1 [?a..?n + 1])" using seqs by (simp add: drop_map)
    also have "\<dots> = map Some [?a + 1..?n + 1]" using drop1_upto [of ?a "?n + 1"] a by simp
    finally have "map m_seq (slice_last 200 ?pushed) = map Some [max 1 (?n + 1 - 199)..?n + 1]"
      using a big by simp
    with True n0 show ?thesis by (simp add: history_inv_def send_message_def Let_def)
  next
    case False
    with len n0 have "?a = max 1 (?n + 1 - 199)" by linarith
    with False seqs n0 show ?thesis by (simp add: history_inv_def send_message_def Let_def)
  qed
qed

lemma history_inv_member:
  assumes "history_inv s" and "m \<in> set (messageHistory s)"
  shows "\<exists>q. m_seq m = Some q \<and> max 1 (messageSeq s - 199) \<le> q \<and> q \<le> messageSeq s"
proof -
  from assms(2) have "m_seq m \<in> set (map m_seq (messageHistory s))" by simp
  also have "map m_seq (messageHistory s) = map Some [max 1 (messageSeq s - 199) .. messageSeq s]"
    using assms(1) by (simp add: history_inv_def)
  finally show ?thesis by auto
qed

lemma POST_history:
  "messageHistory (snd (POST s now req)) =
     (case req of Send_message p \<Rightarrow> messageHistory (snd (send_message s now p)) | _ \<Rightarrow> messageHistory s)"
  by (cases req)
     (simp_all add: register_user_def unregister_user_def heartbeat_def create_room_def
        update_room_def delete_room_def register_device_def key_update_def init_file_transfer_def
        upload_chunk_def list_file_transfers_def download_file_chunk_def get_state_def Let_def
        split: option.splits outcome.splits)

lemma POST_seq:
  "messageSeq (snd (POST s now req)) =
     (case req of Send_message p \<Rightarrow> messageSeq s + 1 | _ \<Rightarrow> messageSeq s)"
  by (cases req)
     (simp_all add: register_user_def unregister_user_def heartbeat_def create_room_def
        update_room_def delete_room_def register_device_def key_update_def init_file_transfer_def
        upload_chunk_def list_file_transfers_def download_file_chunk_def get_state_def Let_def
        send_message_def split: option.splits outcome.splits)

lemma history_inv_POST: "history_inv s \<Longrightarrow> history_inv (snd (POST s now req))"
proof (cases req)
  case (Send_message p)
  assume "history_inv s"
  then show ?thesis using history_inv_send Send_message by simp
next
qed (simp_all add: history_inv_def POST_history POST_seq del: POST.simps)

lemma history_inv_step: "history_inv s \<Longrightarrow> history_inv (step s e)"
  by (cases e) (simp_all add: history_inv_POST del: POST.simps, simp add: history_inv_def cleanup_def)

lemma history_inv_run: "history_inv s \<Longrightarrow> history_inv (run s es)"
  by (induction es arbitrary: s) (simp_all add: history_inv_step)

lemma messageSeq_step_mono: "messageSeq s \<le> messageSeq (step s e)"
  by (cases e) (simp_all add: POST_seq cleanup_def del: POST.simps split: request.splits)

lemma messageSeq_run_mono: "messageSeq s \<le> messageSeq (run s es)"
proof (induction es arbitrary: s)
  case Nil then show ?case by simp
next
  case (Cons e es)
  have "messageSeq s \<le> messageSeq (step s e)" by (rule messageSeq_step_mono)
  also have "\<dots> \<le> messageSeq (run (step s e) es)" by (rule Cons.IH)
  finally show ?case by simp
qed

lemma messageSeq_sends:
  "messageSeq (run s (replicate n (Request now (Send_message p)))) = messageSeq s + int n"
  by (induction n arbitrary: s) (simp_all add: send_message_def Let_def)

text \<open>
  C9. After any sequence of requests and timer runs the relay holds at most 200 messages, namely those
  with the 200 highest sequence numbers; \<open>send_message\<close> keeps the last 200 of the history
  with the new message appended; \<open>register_user\<close> and \<open>get_state\<close> answer with exactly this
  history; and at every later time every stored message has a sequence number above
  \<open>messageSeq - 200\<close> of now, so a message that was discarded does not come back.
\<close>

theorem relay_history_capped_at_200:
  "length (messageHistory (run relay_init reqs)) \<le> 200
   \<and> map m_seq (messageHistory (run relay_init reqs)) =
       map Some [max 1 (messageSeq (run relay_init reqs) - 199) .. messageSeq (run relay_init reqs)]
   \<and> messageHistory (snd (POST (run relay_init reqs) now (Send_message p))) =
       slice_last 200 (messageHistory (run relay_init reqs) @
          [p\<lparr>m_timestamp := now, m_seq := Some (messageSeq (run relay_init reqs) + 1)\<rparr>])
   \<and> (\<exists>us. fst (POST (run relay_init reqs) now (Register_user u)) =
          Register_user_ok us (messageHistory (run relay_init reqs)))
   \<and> (\<exists>g. fst (POST (run relay_init reqs) now Get_state) = Get_state_ok g
          \<and> gs_messages g = messageHistory (run relay_init reqs))
   \<and> (\<forall>m \<in> set (messageHistory (run relay_init (reqs @ later))).
          messageSeq (run relay_init reqs) - 200 < seq_or_zero m)"
proof -
  let ?s = "run relay_init reqs"
  let ?s' = "run relay_init (reqs @ later)"
  have inv: "history_inv ?s" by (rule history_inv_run [OF history_inv_init])
  then have seqs: "map m_seq (messageHistory ?s) = map Some [max 1 (messageSeq ?s - 199) .. messageSeq ?s]"
    by (simp add: history_inv_def)
  have "length (messageHistory ?s) = length [max 1 (messageSeq ?s - 199) .. messageSeq ?s]"
    using arg_cong [OF seqs, of length] by simp
  then have len: "length (messageHistory ?s) \<le> 200" by simp
  have send: "messageHistory (snd (POST ?s now (Send_message p))) =
       slice_last 200 (messageHistory ?s @ [p\<lparr>m_timestamp := now, m_seq := Some (messageSeq ?s + 1)\<rparr>])"
    by (simp add: send_message_def Let_def slice_last_short)
  have reg: "\<exists>us. fst (POST ?s now (Register_user u)) = Register_user_ok us (messageHistory ?s)"
    by (simp add: register_user_def Let_def)
  have gs: "\<exists>g. fst (POST ?s now Get_state) = Get_state_ok g \<and> gs_messages g = messageHistory ?s"
    by (simp add: get_state_def)
  have inv': "history_inv ?s'" by (rule history_inv_run [OF history_inv_init])
  have mono: "messageSeq ?s \<le> messageSeq ?s'"
    unfolding run_append by (rule messageSeq_run_mono)
  have later: "\<forall>m \<in> set (messageHistory ?s'). messageSeq ?s - 200 < seq_or_zero m"
  proof
    fix m assume m: "m \<in> set (messageHistory ?s')"
    from history_inv_member [OF inv' m]
    obtain q where q: "m_seq m = Some q" "max 1 (messageSeq ?s' - 199) \<le> q" by auto
    then show "messageSeq ?s - 200 < seq_or_zero m" using mono by (simp add: seq_or_zero_def)
  qed
  from len seqs send reg gs later show ?thesis by blast
qed

theorem relay_history_capped_at_200_witness:
  "length (messageHistory (run relay_init (replicate 201 (Request 0 (Send_message (demo_message ''m'' None 0)))))) \<le> 200
   \<and> map m_seq (messageHistory (run relay_init (replicate 201 (Request 0 (Send_message (demo_message ''m'' None 0))))))
       = map Some [2..201]"
proof -
  let ?reqs = "replicate 201 (Request 0 (Send_message (demo_message ''m'' None 0)))"
  have n: "messageSeq (run relay_init ?reqs) = 201"
    by (simp add: messageSeq_sends relay_init_def)
  note T = relay_history_capped_at_200 [of ?reqs 0 "demo_message ''m'' None 0" demo_user "[]"]
  have a: "length (messageHistory (run relay_init ?reqs)) \<le> 200" by (rule T [THEN conjunct1])
  have "map m_seq (messageHistory (run relay_init ?reqs)) = map Some [max 1 (201 - 199) .. 201]"
    using T [THEN conjunct2, THEN conjunct1] unfolding n .
  moreover have "max 1 (201 - 199) = (2::int)" by simp
  ultimately have b: "map m_seq (messageHistory (run relay_init ?reqs)) = map Some [2..201]"
    by (simp only:)
  from a b show ?thesis by (rule conjI)
qed

text \<open>
  C6. In every state the relay reaches, a heartbeat with cursor \<open>lastSeq\<close> (0 when the
  payload has none) answers with exactly the stored messages whose sequence number is
  greater than \<open>lastSeq\<close>, in their stored order.
\<close>

theorem heartbeat_returns_messages_after_cursor:
  "\<exists>hb. fst (POST (run relay_init reqs) now (Heartbeat userId cursor)) = Heartbeat_ok hb
     \<and> hb_newMessages hb =
         filter (\<lambda>m. case m_seq m of None \<Rightarrow> False
                          | Some q \<Rightarrow> (case cursor of None \<Rightarrow> 0 | Some c \<Rightarrow> c) < q)
           (messageHistory (run relay_init reqs))
     \<and> (\<forall>m \<in> set (messageHistory (run relay_init reqs)).
           m \<in> set (hb_newMessages hb) \<longleftrightarrow> (case cursor of None \<Rightarrow> 0 | Some c \<Rightarrow> c) < seq_or_zero m)"
proof -
  let ?s = "run relay_init reqs"
  let ?c = "case cursor of None \<Rightarrow> 0 | Some c \<Rightarrow> c"
  have inv: "history_inv ?s" by (rule history_inv_run [OF history_inv_init])
  have all_some: "\<forall>m \<in> set (messageHistory ?s). \<exists>q. m_seq m = Some q"
  proof
    fix m assume "m \<in> set (messageHistory ?s)"
    from history_inv_member [OF inv this] show "\<exists>q. m_seq m = Some q" by auto
  qed
  have eq: "filter (\<lambda>m. ?c < seq_or_zero m) (messageHistory ?s)
          = filter (\<lambda>m. case m_seq m of None \<Rightarrow> False | Some q \<Rightarrow> ?c < q) (messageHistory ?s)"
    by (rule filter_cong) (use all_some in \<open>auto simp: seq_or_zero_def split: option.splits\<close>)
  show ?thesis
    by (simp add: heartbeat_def Let_def eq [symmetric])
qed

theorem heartbeat_returns_messages_after_cursor_witness:
  "\<exists>hb. fst (POST (run relay_init [Request 1 (Send_message (demo_message ''a'' None 0)),
                                    Request 2 (Send_message (demo_message ''b'' None 0)),
                                    Request 3 (Send_message (demo_message ''c'' None 0))]) 4
                 (Heartbeat ''bob'' (Some 1))) = Heartbeat_ok hb
     \<and> hb_newMessages hb = [demo_message ''b'' (Some 2) 2, demo_message ''c'' (Some 3) 3]"
proof -
  let ?reqs = "[Request 1 (Send_message (demo_message ''a'' None 0)),
                Request 2 (Send_message (demo_message ''b'' None 0)),
                Request 3 (Send_message (demo_message ''c'' None 0))]"
  have h: "messageHistory (run relay_init ?reqs)
       = [demo_message ''a'' (Some 1) 1, demo_message ''b'' (Some 2) 2, demo_message ''c'' (Some 3) 3]"
    by code_simp
  from heartbeat_returns_messages_after_cursor [of ?reqs 4 "''bob''" "Some 1"]
  obtain hb where hb: "fst (POST (run relay_init ?reqs) 4 (Heartbeat ''bob'' (Some 1))) = Heartbeat_ok hb"
    "hb_newMessages hb = filter (\<lambda>m. case m_seq m of None \<Rightarrow> False
                           | Some q \<Rightarrow> (case Some 1 of None \<Rightarrow> 0 | Some c \<Rightarrow> c) < q)
                           (messageHistory (run relay_init ?reqs))"
    by blast
  have "hb_newMessages hb = [demo_message ''b'' (Some 2) 2, demo_message ''c'' (Some 3) 3]"
    unfolding hb(2) h by (simp add: demo_message_def)
  with hb(1) show ?thesis by blast
qed

subsection \<open>Rooms (C3, C10)\<close>

lemma set_foldl_set_add: "set (foldl set_add acc xs) = set acc \<union> set xs"
  by (induction xs arbitrary: acc) (auto simp: set_add_def)

lemma set_array_from_set: "set (array_from_set xs) = set xs"
  by (simp add: array_from_set_def set_foldl_set_add)

lemma set_push_missing: "set (push_missing xs x) = insert x (set xs)"
  by (auto simp: push_missing_def)

lemmas room_sets = set_array_from_set set_push_missing

lemmas value_ops = truthy_def or_array_def spread_def filter_ids_def array_includes_def keep_owner_def

lemma and_then_returns:
  assumes "returns_with P x" and "\<And>r. P r \<Longrightarrow> returns_with Q (f r)"
  shows "returns_with Q (and_then x f)"
  using assms by (cases x) simp_all

lemma and_then_left_as:
  assumes "P (left_as x)" and "\<And>r. P r \<Longrightarrow> P (left_as (f r))"
  shows "P (left_as (and_then x f))"
  using assms by (cases x) simp_all

lemma returns_withD: "returns_with P x \<Longrightarrow> \<exists>r. x = Returns r \<and> P r"
  by (cases x) simp_all

text \<open>No mutation changes the id of the room, whether it returns or throws.\<close>

lemma id_addParticipant: "r_id (left_as (do_addParticipant p r)) = r_id r"
  by (simp add: do_addParticipant_def split: option.splits)

lemma id_removeParticipant: "r_id (left_as (do_removeParticipant p r)) = r_id r"
  by (simp add: do_removeParticipant_def Let_def keep_owner_def split: option.splits)

lemma id_addAdmin: "r_id (left_as (do_addAdmin p r)) = r_id r"
  by (simp add: do_addAdmin_def Let_def split: option.splits)

lemma id_removeAdmin: "r_id (left_as (do_removeAdmin p r)) = r_id r"
  by (simp add: do_removeAdmin_def split: option.splits)

lemma id_transferOwnerTo: "r_id (left_as (do_transferOwnerTo p r)) = r_id r"
  by (simp add: do_transferOwnerTo_def Let_def split: option.splits)

lemma id_mutate_room: "r_id (left_as (mutate_room p r)) = r_id r"
  unfolding mutate_room_def
  by (intro and_then_left_as [where P = "\<lambda>x. r_id x = r_id r"])
     (simp_all add: id_addParticipant id_removeParticipant id_addAdmin id_removeAdmin
        id_transferOwnerTo)

text \<open>In a room whose admins are an array no mutation throws, and the owner stays inside.\<close>

lemma owner_addParticipant: "owner_inv r \<Longrightarrow> returns_with owner_inv (do_addParticipant p r)"
  by (auto simp: owner_inv_def do_addParticipant_def room_sets split: option.splits ids_value.splits)

lemma owner_removeParticipant: "owner_inv r \<Longrightarrow> returns_with owner_inv (do_removeParticipant p r)"
  by (auto simp: owner_inv_def do_removeParticipant_def room_sets value_ops Let_def
      split: option.splits ids_value.splits)

lemma owner_addAdmin: "owner_inv r \<Longrightarrow> returns_with owner_inv (do_addAdmin p r)"
  by (auto simp: owner_inv_def do_addAdmin_def room_sets value_ops Let_def
      split: option.splits ids_value.splits)

lemma owner_removeAdmin: "owner_inv r \<Longrightarrow> returns_with owner_inv (do_removeAdmin p r)"
  by (auto simp: owner_inv_def do_removeAdmin_def value_ops split: option.splits ids_value.splits)

lemma owner_transferOwnerTo: "owner_inv r \<Longrightarrow> returns_with owner_inv (do_transferOwnerTo p r)"
  by (auto simp: owner_inv_def do_transferOwnerTo_def value_ops Let_def
      split: option.splits ids_value.splits)

lemma owner_mutate_room: "owner_inv r \<Longrightarrow> returns_with owner_inv (mutate_room p r)"
  unfolding mutate_room_def
  by (intro and_then_returns [where P = owner_inv] owner_addParticipant owner_removeParticipant
        owner_addAdmin owner_removeAdmin owner_transferOwnerTo)

text \<open>
  With the admins among the participants: the sender of the request is a participant
  when the ownership is transferred, unless the request removed them.
\<close>

lemma inside_addParticipant:
  "sender_inside p r \<Longrightarrow> returns_with (sender_inside p) (do_addParticipant p r)"
  by (auto simp: sender_inside_def room_inv_def do_addParticipant_def room_sets
      split: option.splits ids_value.splits)

lemma inside_removeParticipant:
  "sender_inside p r \<Longrightarrow> \<not> leaves_and_transfers p
     \<Longrightarrow> returns_with (sender_inside p) (do_removeParticipant p r)"
  by (auto simp: sender_inside_def room_inv_def do_removeParticipant_def room_sets value_ops
        leaves_and_transfers_def js_truthy_def Let_def split: option.splits ids_value.splits)

lemma inside_addAdmin:
  "sender_inside p r \<Longrightarrow> returns_with (sender_inside p) (do_addAdmin p r)"
  by (auto simp: sender_inside_def room_inv_def do_addAdmin_def room_sets value_ops Let_def
      split: option.splits ids_value.splits)

lemma inside_removeAdmin:
  "sender_inside p r \<Longrightarrow> returns_with (sender_inside p) (do_removeAdmin p r)"
  by (auto simp: sender_inside_def room_inv_def do_removeAdmin_def value_ops
      split: option.splits ids_value.splits)

lemma inside_transferOwnerTo:
  "sender_inside p r \<Longrightarrow> returns_with room_inv (do_transferOwnerTo p r)"
  by (auto simp: sender_inside_def room_inv_def do_transferOwnerTo_def room_sets value_ops
        js_truthy_def Let_def split: option.splits ids_value.splits)

lemma admin_is_member:
  "room_inv r \<Longrightarrow> is_room_admin r u \<Longrightarrow> u \<in> set (r_participants r)"
  by (auto simp: room_inv_def is_room_admin_def array_includes_def split: ids_value.splits)

lemma inv_mutate_room:
  assumes inv: "room_inv r" and auth: "is_room_admin r (ur_byUserId p)"
    and plain: "\<not> leaves_and_transfers p"
  shows "returns_with room_inv (mutate_room p r)"
proof -
  have start: "sender_inside p r"
    using inv admin_is_member [OF inv auth] by (simp add: sender_inside_def)
  have four: "returns_with (sender_inside p)
     (and_then (and_then (and_then (do_addParticipant p r) (do_removeParticipant p))
        (do_addAdmin p)) (do_removeAdmin p))"
    by (intro and_then_returns [where P = "sender_inside p"] inside_addParticipant [OF start]
          inside_removeParticipant inside_addAdmin inside_removeAdmin plain)
  show ?thesis unfolding mutate_room_def
    by (rule and_then_returns [OF four]) (rule inside_transferOwnerTo)
qed

text \<open>The table of rooms: every room is stored under its id, in every state the relay reaches.\<close>

lemma list_all_update:
  "list_all P al \<Longrightarrow> P (k, v) \<Longrightarrow> list_all P (AList.update k v al)"
  by (induction al) auto

lemma list_all_delete: "list_all P al \<Longrightarrow> list_all P (AList.delete k al)"
  by (induction al) auto

lemma keys_are_idsD: "keys_are_ids s \<Longrightarrow> map_of (rooms s) k = Some r \<Longrightarrow> r_id r = k"
  by (auto simp: keys_are_ids_def list_all_iff dest: map_of_SomeD)

lemma POST_rooms:
  "rooms (snd (POST s now req)) =
     (case req of
        Create_room p \<Rightarrow> rooms (snd (create_room s now p))
      | Update_room p \<Rightarrow> rooms (snd (update_room s p))
      | Delete_room roomId byUserId \<Rightarrow> rooms (snd (delete_room s roomId byUserId))
      | _ \<Rightarrow> rooms s)"
  by (cases req)
     (simp_all add: register_user_def unregister_user_def heartbeat_def register_device_def
        key_update_def init_file_transfer_def send_message_def upload_chunk_def
        list_file_transfers_def download_file_chunk_def get_state_def Let_def
        split: option.splits)

lemma keys_are_ids_update_room:
  assumes "keys_are_ids s"
  shows "keys_are_ids (snd (update_room s p))"
proof (cases "map_of (rooms s) (ur_roomId p)")
  case None
  with assms show ?thesis by (simp add: update_room_def)
next
  case (Some r)
  have id: "r_id (left_as (mutate_room p r)) = ur_roomId p"
    using keys_are_idsD [OF assms Some] by (simp add: id_mutate_room)
  show ?thesis
  proof (cases "mutate_room p r")
    case (Returns r')
    with id have "r_id r' = ur_roomId p" by simp
    with assms Some Returns show ?thesis
      by (auto simp: update_room_def keys_are_ids_def Let_def intro!: list_all_update)
  next
    case (Throws r')
    with id have "r_id r' = ur_roomId p" by simp
    with assms Some Throws show ?thesis
      by (auto simp: update_room_def keys_are_ids_def intro!: list_all_update)
  qed
qed

lemma keys_are_ids_create_room: "keys_are_ids s \<Longrightarrow> keys_are_ids (snd (create_room s now p))"
  by (auto simp: create_room_def keys_are_ids_def Let_def split: option.splits
      intro!: list_all_update)

lemma keys_are_ids_delete_room: "keys_are_ids s \<Longrightarrow> keys_are_ids (snd (delete_room s k u))"
  by (auto simp: delete_room_def keys_are_ids_def Let_def split: option.splits
      intro!: list_all_delete)

lemma keys_are_ids_step: "keys_are_ids s \<Longrightarrow> keys_are_ids (step s e)"
proof (cases e)
  case (Request now req)
  assume k: "keys_are_ids s"
  have "keys_are_ids (snd (POST s now req))"
    unfolding keys_are_ids_def POST_rooms
    using keys_are_ids_update_room [OF k] keys_are_ids_create_room [OF k]
          keys_are_ids_delete_room [OF k] k
    by (cases req) (simp_all add: keys_are_ids_def)
  with Request show ?thesis by simp
next
  case (Cleanup now)
  assume "keys_are_ids s"
  with Cleanup show ?thesis by (simp add: keys_are_ids_def cleanup_def)
qed

lemma keys_are_ids_run: "keys_are_ids s \<Longrightarrow> keys_are_ids (run s es)"
  by (induction es arbitrary: s) (simp_all add: keys_are_ids_step)

lemma keys_are_ids_reached: "keys_are_ids (run relay_init history)"
  by (rule keys_are_ids_run) (simp add: keys_are_ids_def relay_init_def)

text \<open>
  One room through one event: a property of the room that its own authorised updates keep
  is kept by every event that does not delete the room.
\<close>

lemma room_update_room:
  assumes k: "keys_are_ids s" and at: "map_of (rooms s) rid = Some r" and inv: "Inv r"
    and keeps: "ur_roomId p = rid \<Longrightarrow> is_room_admin r (ur_byUserId p)
                  \<Longrightarrow> returns_with Inv (mutate_room p r)"
  shows "\<exists>r'. map_of (rooms (snd (update_room s p))) rid = Some r' \<and> Inv r'"
proof (cases "ur_roomId p = rid")
  case True
  show ?thesis
  proof (cases "is_room_admin r (ur_byUserId p)")
    case False
    with True at inv show ?thesis by (simp add: update_room_def)
  next
    case auth: True
    from returns_withD [OF keeps [OF True auth]] obtain r' where
      r': "mutate_room p r = Returns r'" "Inv r'" by blast
    with True at auth show ?thesis
      by (simp add: update_room_def Let_def update_conv')
  qed
next
  case other: False
  show ?thesis
  proof (cases "map_of (rooms s) (ur_roomId p)")
    case None
    with at inv show ?thesis by (simp add: update_room_def)
  next
    case (Some r2)
    have id: "r_id (left_as (mutate_room p r2)) = ur_roomId p"
      using keys_are_idsD [OF k Some] by (simp add: id_mutate_room)
    show ?thesis
    proof (cases "mutate_room p r2")
      case (Returns r')
      with id have "r_id r' = ur_roomId p" by simp
      with Some Returns other at inv show ?thesis
        by (simp add: update_room_def Let_def update_conv')
    next
      case (Throws r')
      with Some other at inv show ?thesis
        by (simp add: update_room_def update_conv')
    qed
  qed
qed

lemma room_create_room:
  assumes "map_of (rooms s) rid = Some r"
  shows "map_of (rooms (snd (create_room s now p))) rid = Some r"
  using assms
  by (auto simp: create_room_def Let_def update_conv' split: option.splits)

lemma room_delete_room:
  assumes "map_of (rooms s) rid = Some r" and "k \<noteq> rid"
  shows "map_of (rooms (snd (delete_room s k u))) rid = Some r"
  using assms
  by (auto simp: delete_room_def Let_def delete_conv' split: option.splits)

lemma room_step:
  assumes k: "keys_are_ids s" and at: "map_of (rooms s) rid = Some r" and inv: "Inv r"
    and stays: "\<not> deletes rid e"
    and keeps: "\<And>now p. e = Request now (Update_room p) \<Longrightarrow> ur_roomId p = rid
                  \<Longrightarrow> is_room_admin r (ur_byUserId p) \<Longrightarrow> returns_with Inv (mutate_room p r)"
  shows "\<exists>r'. map_of (rooms (step s e)) rid = Some r' \<and> Inv r'"
proof (cases e)
  case (Cleanup now)
  with at inv show ?thesis by (simp add: cleanup_def)
next
  case (Request now req)
  show ?thesis
  proof (cases req)
    case (Update_room p)
    with Request room_update_room [where Inv = Inv and p = p, OF k at inv] keeps [of now p]
    show ?thesis by simp
  next
    case (Create_room p)
    with Request room_create_room [OF at] inv show ?thesis by simp
  next
    case (Delete_room roomId byUserId)
    with Request stays room_delete_room [OF at, of roomId byUserId] inv show ?thesis by simp
  qed (use Request at inv in \<open>simp_all add: POST_rooms del: POST.simps\<close>)
qed

lemma owner_run:
  assumes "keys_are_ids s" and "map_of (rooms s) rid = Some r" and "owner_inv r"
    and "\<not> list_ex (deletes rid) es"
  shows "\<exists>r'. map_of (rooms (run s es)) rid = Some r' \<and> owner_inv r'"
  using assms
proof (induction es arbitrary: s r)
  case Nil then show ?case by simp
next
  case (Cons e es)
  have "\<exists>r'. map_of (rooms (step s e)) rid = Some r' \<and> owner_inv r'"
  proof (rule room_step [where Inv = owner_inv, OF Cons.prems(1-3)])
    show "\<not> deletes rid e" using Cons.prems(4) by simp
  next
    fix now p
    show "returns_with owner_inv (mutate_room p r)"
      by (rule owner_mutate_room [OF Cons.prems(3)])
  qed
  then obtain r1 where r1: "map_of (rooms (step s e)) rid = Some r1" "owner_inv r1" by blast
  from Cons.IH [OF keys_are_ids_step [OF Cons.prems(1)] r1] Cons.prems(4)
  show ?case by simp
qed

lemma admins_run:
  assumes "keys_are_ids s" and "map_of (rooms s) rid = Some r" and "room_inv r"
    and "\<not> list_ex (deletes rid) es" and "\<not> list_ex (leaving_transfer rid) es"
  shows "\<exists>r'. map_of (rooms (run s es)) rid = Some r' \<and> room_inv r'"
  using assms
proof (induction es arbitrary: s r)
  case Nil then show ?case by simp
next
  case (Cons e es)
  have "\<exists>r'. map_of (rooms (step s e)) rid = Some r' \<and> room_inv r'"
  proof (rule room_step [where Inv = room_inv, OF Cons.prems(1-3)])
    show "\<not> deletes rid e" using Cons.prems(4) by simp
  next
    fix now p
    assume "e = Request now (Update_room p)" "ur_roomId p = rid" "is_room_admin r (ur_byUserId p)"
    with Cons.prems(5) show "returns_with room_inv (mutate_room p r)"
      by (intro inv_mutate_room Cons.prems(3)) simp_all
  qed
  then obtain r1 where r1: "map_of (rooms (step s e)) rid = Some r1" "room_inv r1" by blast
  from Cons.IH [OF keys_are_ids_step [OF Cons.prems(1)] r1] Cons.prems(4,5)
  show ?case by simp
qed

lemma list_ex_take: "\<not> list_ex P xs \<Longrightarrow> \<not> list_ex P (take k xs)"
  by (auto simp: list_ex_iff dest: in_set_takeD)

text \<open>
  C3, as amended. Take a room that the relay holds, in any state it reaches, whose admins
  are an array, and any sequence of events that holds no \<open>delete_room\<close> for it (requests
  for this and other rooms, by authorised senders or not). If the owner is a participant,
  the room is still there after every event with its owner a participant. If moreover
  every admin is a participant, and no \<open>update_room\<close> for the room both removes its own
  sender and transfers the ownership, then after every event every admin is a
  participant too.
\<close>

theorem update_room_keeps_owner_and_admins_inside:
  assumes "map_of (rooms (run relay_init history)) rid = Some r"
    and "\<not> list_ex (deletes rid) es" and "k \<le> length es"
  shows "(owner_inv r \<longrightarrow>
            (\<exists>r'. map_of (rooms (run (run relay_init history) (take k es))) rid = Some r'
                \<and> owner_inv r'))
       \<and> (room_inv r \<longrightarrow> \<not> list_ex (leaving_transfer rid) es \<longrightarrow>
            (\<exists>r'. map_of (rooms (run (run relay_init history) (take k es))) rid = Some r'
                \<and> room_inv r'))"
proof (intro conjI impI)
  assume "owner_inv r"
  with assms(1) show "\<exists>r'. map_of (rooms (run (run relay_init history) (take k es))) rid = Some r'
      \<and> owner_inv r'"
    by (intro owner_run keys_are_ids_reached list_ex_take assms(2))
next
  assume "room_inv r" "\<not> list_ex (leaving_transfer rid) es"
  with assms(1) show "\<exists>r'. map_of (rooms (run (run relay_init history) (take k es))) rid = Some r'
      \<and> room_inv r'"
    by (intro admins_run keys_are_ids_reached list_ex_take assms(2))
qed

theorem update_room_keeps_owner_and_admins_inside_witness:
  "map_of (rooms (run relay_init [Request 1 (Create_room demo_room_payload)])) ''r1''
     = Some \<lparr> r_id = ''r1'', r_name = ''lobby'', r_participants = [''bob'', ''alice''],
              r_createdBy = ''alice'', r_createdAt = 1, r_isPublic = False, r_admins = Id_array [] \<rparr>
   \<and> (\<exists>r'. map_of (rooms (run (run relay_init [Request 1 (Create_room demo_room_payload)])
        (take 4
          [Request 2 (Update_room (no_update\<lparr>addParticipant := Some ''carol'', addAdmin := Some ''bob''\<rparr>)),
           Request 3 (Update_room (no_update\<lparr>ur_byUserId := ''bob'', transferOwnerTo := Some ''bob''\<rparr>)),
           Request 4 (Update_room (no_update\<lparr>ur_byUserId := ''bob'', removeParticipant := Some ''alice''\<rparr>)),
           Request 5 (Update_room (no_update\<lparr>ur_byUserId := ''mallory'', removeParticipant := Some ''bob''\<rparr>))]))) ''r1''
          = Some r' \<and> owner_inv r')
   \<and> (\<exists>r'. map_of (rooms (run (run relay_init [Request 1 (Create_room demo_room_payload)])
        (take 4
          [Request 2 (Update_room (no_update\<lparr>addParticipant := Some ''carol'', addAdmin := Some ''bob''\<rparr>)),
           Request 3 (Update_room (no_update\<lparr>ur_byUserId := ''bob'', transferOwnerTo := Some ''bob''\<rparr>)),
           Request 4 (Update_room (no_update\<lparr>ur_byUserId := ''bob'', removeParticipant := Some ''alice''\<rparr>)),
           Request 5 (Update_room (no_update\<lparr>ur_byUserId := ''mallory'', removeParticipant := Some ''bob''\<rparr>))]))) ''r1''
          = Some r' \<and> room_inv r')
   \<and> values_of (rooms (run (run relay_init [Request 1 (Create_room demo_room_payload)])
          [Request 2 (Update_room (no_update\<lparr>addParticipant := Some ''carol'', addAdmin := Some ''bob''\<rparr>)),
           Request 3 (Update_room (no_update\<lparr>ur_byUserId := ''bob'', transferOwnerTo := Some ''bob''\<rparr>)),
           Request 4 (Update_room (no_update\<lparr>ur_byUserId := ''bob'', removeParticipant := Some ''alice''\<rparr>)),
           Request 5 (Update_room (no_update\<lparr>ur_byUserId := ''mallory'', removeParticipant := Some ''bob''\<rparr>))]))
      = [\<lparr> r_id = ''r1'', r_name = ''lobby'', r_participants = [''bob'', ''carol''],
            r_createdBy = ''bob'', r_createdAt = 1, r_isPublic = False, r_admins = Id_array [''bob''] \<rparr>]"
proof -
  let ?history = "[Request 1 (Create_room demo_room_payload)]"
  let ?r = "\<lparr> r_id = ''r1'', r_name = ''lobby'', r_participants = [''bob'', ''alice''],
              r_createdBy = ''alice'', r_createdAt = 1, r_isPublic = False, r_admins = Id_array [] \<rparr>"
  let ?es = "[Request 2 (Update_room (no_update\<lparr>addParticipant := Some ''carol'', addAdmin := Some ''bob''\<rparr>)),
           Request 3 (Update_room (no_update\<lparr>ur_byUserId := ''bob'', transferOwnerTo := Some ''bob''\<rparr>)),
           Request 4 (Update_room (no_update\<lparr>ur_byUserId := ''bob'', removeParticipant := Some ''alice''\<rparr>)),
           Request 5 (Update_room (no_update\<lparr>ur_byUserId := ''mallory'', removeParticipant := Some ''bob''\<rparr>))]"
  have h1: "map_of (rooms (run relay_init ?history)) ''r1'' = Some ?r" by code_simp
  have h2: "\<not> list_ex (deletes ''r1'') ?es" by simp
  have h3: "4 \<le> length ?es" by simp
  have h4: "owner_inv ?r" by (simp add: owner_inv_def)
  have h5: "room_inv ?r" by (simp add: room_inv_def)
  have h6: "\<not> list_ex (leaving_transfer ''r1'') ?es"
    by (simp add: leaves_and_transfers_def no_update_def js_truthy_def)
  note T = update_room_keeps_owner_and_admins_inside [OF h1 h2 h3]
  have c1: "\<exists>r'. map_of (rooms (run (run relay_init ?history) (take 4 ?es))) ''r1'' = Some r'
              \<and> owner_inv r'"
    by (rule T [THEN conjunct1, THEN mp, OF h4])
  have c2: "\<exists>r'. map_of (rooms (run (run relay_init ?history) (take 4 ?es))) ''r1'' = Some r'
              \<and> room_inv r'"
    by (rule T [THEN conjunct2, THEN mp, OF h5, THEN mp, OF h6])
  have c3: "values_of (rooms (run (run relay_init ?history) ?es))
      = [\<lparr> r_id = ''r1'', r_name = ''lobby'', r_participants = [''bob'', ''carol''],
            r_createdBy = ''bob'', r_createdAt = 1, r_isPublic = False, r_admins = Id_array [''bob''] \<rparr>]"
    by code_simp
  show ?thesis by (intro conjI h1 c1 c2 c3)
qed

text \<open>
  C3 as stated fails, each time with requests by the owner or an admin of the room. A room
  created with an admin who is not a participant still has that admin outside the
  participants after an \<open>addParticipant\<close>. One \<open>update_room\<close> by the admin bob that carries
  both \<open>removeParticipant: bob\<close> and \<open>transferOwnerTo: alice\<close> leaves bob an admin who is not
  a participant. In a room created with the string \<open>'x'\<close> as its admins, the owner's
  \<open>removeParticipant\<close> of herself takes her out of the participants and then throws, before
  the handler puts the owner back: the relay answers 500 and keeps the room with its owner
  outside the participants.
\<close>

theorem room_admin_outside_participants_counterexample:
  "values_of (rooms (run relay_init
      [Request 1 (Create_room (demo_room_payload\<lparr>cr_admins := Id_array [''mallory'']\<rparr>)),
       Request 2 (Update_room (no_update\<lparr>addParticipant := Some ''carol''\<rparr>))]))
     = [\<lparr> r_id = ''r1'', r_name = ''lobby'', r_participants = [''bob'', ''alice'', ''carol''],
           r_createdBy = ''alice'', r_createdAt = 1, r_isPublic = False,
           r_admins = Id_array [''mallory''] \<rparr>]
   \<and> map room_inv (values_of (rooms (run relay_init
      [Request 1 (Create_room demo_room_payload),
       Request 2 (Update_room (no_update\<lparr>addAdmin := Some ''bob''\<rparr>))])))
     = [True]
   \<and> values_of (rooms (run relay_init
      [Request 1 (Create_room demo_room_payload),
       Request 2 (Update_room (no_update\<lparr>addAdmin := Some ''bob''\<rparr>)),
       Request 3 (Update_room (no_update\<lparr>ur_byUserId := ''bob'', removeParticipant := Some ''bob'',
             transferOwnerTo := Some ''alice''\<rparr>))]))
     = [\<lparr> r_id = ''r1'', r_name = ''lobby'', r_participants = [''alice''],
           r_createdBy = ''alice'', r_createdAt = 1, r_isPublic = False,
           r_admins = Id_array [''bob''] \<rparr>]
   \<and> fst (POST (run relay_init
              [Request 1 (Create_room (demo_room_payload\<lparr>cr_admins := Id_string ''x''\<rparr>))]) 2
            (Update_room (no_update\<lparr>removeParticipant := Some ''alice''\<rparr>)))
     = Error_response ''Server error'' 500
   \<and> values_of (rooms (run relay_init
      [Request 1 (Create_room (demo_room_payload\<lparr>cr_admins := Id_string ''x''\<rparr>)),
       Request 2 (Update_room (no_update\<lparr>removeParticipant := Some ''alice''\<rparr>))]))
     = [\<lparr> r_id = ''r1'', r_name = ''lobby'', r_participants = [''bob''],
           r_createdBy = ''alice'', r_createdAt = 1, r_isPublic = False,
           r_admins = Id_string ''x'' \<rparr>]"
  by code_simp

text \<open>
  C10. \<open>create_room\<close> stores the payload's admins as they are, and as participants the
  listed participants and the creator: an admin of the payload who is neither is an admin
  of the new room and not a participant of it.
\<close>

theorem create_room_copies_admins_verbatim:
  assumes "js_truthy (cr_id p)" and "js_truthy (cr_name p)" and "js_truthy (cr_createdBy p)"
    and "map_of (rooms s) (the (cr_id p)) = None"
    and "spread (or_array (cr_participants p)) = Some listed"
    and "array_includes (cr_admins p) a"
    and "a \<notin> set listed" and "cr_createdBy p \<noteq> Some a"
  shows "\<exists>r. map_of (rooms (snd (create_room s now p))) (the (cr_id p)) = Some r
           \<and> r_admins r = cr_admins p
           \<and> set (r_participants r) = set listed \<union> {the (cr_createdBy p)}
           \<and> array_includes (r_admins r) a \<and> a \<notin> set (r_participants r)"
proof -
  from assms(3) obtain c where c: "cr_createdBy p = Some c"
    by (auto simp: js_truthy_def split: option.splits)
  from assms(6) have t: "or_array (cr_admins p) = cr_admins p"
    by (auto simp: array_includes_def or_array_def truthy_def split: ids_value.splits)
  from assms c t show ?thesis
    by (auto simp: create_room_def Let_def update_conv' room_sets)
qed

theorem create_room_copies_admins_verbatim_witness:
  "\<exists>r. map_of (rooms (snd (create_room relay_init 1
            (demo_room_payload\<lparr>cr_admins := Id_array [''mallory'']\<rparr>)))) ''r1'' = Some r
      \<and> r_admins r = Id_array [''mallory'']
      \<and> set (r_participants r) = set [''bob''] \<union> {''alice''}
      \<and> array_includes (r_admins r) ''mallory'' \<and> ''mallory'' \<notin> set (r_participants r)"
proof -
  have "js_truthy (cr_id (demo_room_payload\<lparr>cr_admins := Id_array [''mallory'']\<rparr>))"
       "js_truthy (cr_name (demo_room_payload\<lparr>cr_admins := Id_array [''mallory'']\<rparr>))"
       "js_truthy (cr_createdBy (demo_room_payload\<lparr>cr_admins := Id_array [''mallory'']\<rparr>))"
       "map_of (rooms relay_init) (the (cr_id (demo_room_payload\<lparr>cr_admins := Id_array [''mallory'']\<rparr>))) = None"
       "spread (or_array (cr_participants (demo_room_payload\<lparr>cr_admins := Id_array [''mallory'']\<rparr>)))
          = Some [''bob'']"
       "array_includes (cr_admins (demo_room_payload\<lparr>cr_admins := Id_array [''mallory'']\<rparr>)) ''mallory''"
       "''mallory'' \<notin> set [''bob'']"
       "cr_createdBy (demo_room_payload\<lparr>cr_admins := Id_array [''mallory'']\<rparr>) \<noteq> Some ''mallory''"
    by (simp_all add: demo_room_payload_def relay_init_def js_truthy_def value_ops)
  from create_room_copies_admins_verbatim [OF this, of 1]
  show ?thesis by (simp add: demo_room_payload_def)
qed

subsection \<open>Key envelopes (C2)\<close>

lemma byte_mod_256: "word_of_nat (unat (w :: 8 word) mod 256) = w"
proof -
  have "unat w < 256" using unsigned_less [of w, where 'a = nat] by simp
  then show ?thesis by simp
qed

lemma bytes_round_trip:
  assumes "\<forall>x. atob wc (btoa wc x) = Some x"
  shows "base64ToBytes wc (bytesToBase64 wc bs) = Some bs"
  using assms by (simp add: base64ToBytes_def bytesToBase64_def comp_def byte_mod_256)

text \<open>
  C2. For a platform that keeps the laws of \<open>webcrypto_laws\<close>, an extractable room key
  \<open>K\<close> and a recipient key pair, \<open>packRoomKeyForRecipient\<close> returns an envelope, and
  \<open>unpackRoomKeyFromSender\<close> with the recipient's private key returns from it a key whose
  raw bytes are those of \<open>K\<close>, whatever ephemeral pair, salt and nonce were drawn.
\<close>

theorem room_key_envelope_round_trip:
  assumes laws: "webcrypto_laws wc key_pair" and subtle: "hasSubtle wc"
    and recipient: "key_pair pub priv" and ephemeral: "key_pair (fst ephem) (snd ephem)"
    and extractable: "export_raw wc K = Some raw"
  shows "\<exists>env K'. packRoomKeyForRecipient wc ephem salt nonce K pub = Some env
           \<and> unpackRoomKeyFromSender wc priv (epk env) (saltB64 env) (nonceB64 env) (ctB64 env) = Some K'
           \<and> exportAesRaw wc K' = Some raw"
proof -
  from laws have b64: "\<forall>x. atob wc (btoa wc x) = Some x" by (simp add: webcrypto_laws_def)
  from laws recipient ephemeral obtain z where
    z1: "ecdh_deriveBits wc (snd ephem) pub = Some z" and z2: "ecdh_deriveBits wc priv (fst ephem) = Some z"
    unfolding webcrypto_laws_def by blast
  from laws obtain aes where aes: "hkdf_deriveKey wc z salt ''lanhub-roomkey-v1'' = Some aes"
    unfolding webcrypto_laws_def by blast
  from laws obtain ct where
    ct1: "aes_gcm_encrypt wc aes nonce raw = Some ct" and ct2: "aes_gcm_decrypt wc aes nonce ct = Some raw"
    unfolding webcrypto_laws_def by blast
  from laws extractable obtain K' where
    K': "import_raw wc raw = Some K'" "export_raw wc K' = Some raw"
    unfolding webcrypto_laws_def by blast
  let ?env = "\<lparr> epk = fst ephem, saltB64 = bytesToBase64 wc salt,
                 nonceB64 = bytesToBase64 wc nonce, ctB64 = bytesToBase64 wc ct \<rparr>"
  have pack: "packRoomKeyForRecipient wc ephem salt nonce K pub = Some ?env"
    using subtle z1 aes extractable ct1
    by (simp add: packRoomKeyForRecipient_def generateECDH_def deriveSharedBits_def
          deriveAesFromShared_def exportAesRaw_def aesEncryptBytes_def)
  have unpack: "unpackRoomKeyFromSender wc priv (epk ?env) (saltB64 ?env) (nonceB64 ?env) (ctB64 ?env) = Some K'"
    using subtle z2 aes ct2 K'(1) bytes_round_trip [OF b64]
    by (simp add: unpackRoomKeyFromSender_def deriveSharedBits_def deriveAesFromShared_def
          aesDecryptBytes_def importAesRaw_def)
  from pack unpack K'(2) subtle show ?thesis by (auto simp: exportAesRaw_def)
qed

lemma toy_laws: "webcrypto_laws toy_crypto (\<lambda>A a. A = a)"
  by (simp add: webcrypto_laws_def toy_crypto_def mult.commute)

theorem room_key_envelope_round_trip_witness:
  "\<exists>env K'. packRoomKeyForRecipient toy_crypto (3, 3) [1, 2] [7] [42, 43] 5 = Some env
      \<and> unpackRoomKeyFromSender toy_crypto 5 (epk env) (saltB64 env) (nonceB64 env) (ctB64 env) = Some K'
      \<and> exportAesRaw toy_crypto K' = Some [42, 43]"
proof -
  have "hasSubtle toy_crypto" "export_raw toy_crypto [42, 43] = Some [42, 43]"
    by (simp_all add: toy_crypto_def)
  from room_key_envelope_round_trip [OF toy_laws this(1) _ _ this(2), of 5 5 "(3, 3)" "[1, 2]" "[7]"]
  show ?thesis by simp
qed

subsection \<open>Merging and sending messages (C4, C5)\<close>

lemma compare_le: "compare_messages a b \<le> 0 \<longleftrightarrow> ordered_before a b"
  by (auto simp: compare_messages_def ordered_before_def Let_def)

lemma ordered_before_trans: "ordered_before a b \<Longrightarrow> ordered_before b c \<Longrightarrow> ordered_before a c"
  by (auto simp: ordered_before_def)

lemma ordered_before_total: "ordered_before a b \<or> ordered_before b a"
  by (auto simp: ordered_before_def)

lemma set_insert_by: "set (insert_by cmp x xs) = insert x (set xs)"
  by (induction xs) auto

lemma set_js_sort: "set (js_sort cmp xs) = set xs"
  by (induction xs) (simp_all add: js_sort_def set_insert_by)

lemma distinct_map_insert_by:
  "distinct (map f (insert_by cmp x xs)) \<longleftrightarrow> f x \<notin> f ` set xs \<and> distinct (map f xs)"
  by (induction xs) (auto simp: set_insert_by)

lemma distinct_map_js_sort: "distinct (map f (js_sort cmp xs)) \<longleftrightarrow> distinct (map f xs)"
  by (induction xs) (auto simp: js_sort_def distinct_map_insert_by set_js_sort [unfolded js_sort_def])

lemma sorted_insert_by:
  "sorted_wrt ordered_before xs \<Longrightarrow> sorted_wrt ordered_before (insert_by compare_messages x xs)"
proof (induction xs)
  case Nil then show ?case by simp
next
  case (Cons y ys)
  show ?case
  proof (cases "compare_messages x y \<le> 0")
    case True
    then have xy: "ordered_before x y" by (simp add: compare_le)
    with Cons.prems show ?thesis using True by (auto intro: ordered_before_trans)
  next
    case False
    then have "ordered_before y x" using ordered_before_total [of x y] by (simp add: compare_le)
    with Cons False show ?thesis by (auto simp: set_insert_by)
  qed
qed

lemma sorted_js_sort: "sorted_wrt ordered_before (js_sort compare_messages xs)"
  by (induction xs) (simp_all add: js_sort_def sorted_insert_by)

lemma map_set_all_keys:
  "fst ` set (map_set_all mp ms) = fst ` set mp \<union> m_id ` set ms"
  unfolding map_set_all_def
proof (induction ms arbitrary: mp)
  case Nil then show ?case by simp
next
  case (Cons m ms)
  show ?case by (auto simp: Cons.IH dom_update)
qed

lemma map_set_all_distinct:
  "distinct (map fst mp) \<Longrightarrow> distinct (map fst (map_set_all mp ms))"
  unfolding map_set_all_def
  by (induction ms arbitrary: mp) (simp_all add: distinct_update)

lemma update_keyed:
  "\<forall>p \<in> set al. fst p = f (snd p) \<Longrightarrow> \<forall>p \<in> set (AList.update (f v) v al). fst p = f (snd p)"
  by (induction al) auto

lemma map_set_all_keyed:
  "\<forall>p \<in> set mp. fst p = m_id (snd p) \<Longrightarrow> \<forall>p \<in> set (map_set_all mp ms). fst p = m_id (snd p)"
  unfolding map_set_all_def
proof (induction ms arbitrary: mp)
  case Nil then show ?case by simp
next
  case (Cons m ms)
  from Cons.IH [OF update_keyed [OF Cons.prems, of m]] show ?case by simp
qed

lemma update_values_from:
  "set (map snd (AList.update k v al)) \<subseteq> insert v (set (map snd al))"
  by (induction al) auto

lemma map_set_all_values:
  "set (map snd (map_set_all mp ms)) \<subseteq> set (map snd mp) \<union> set ms"
  unfolding map_set_all_def
proof (induction ms arbitrary: mp)
  case Nil then show ?case by simp
next
  case (Cons m ms)
  from Cons.IH [of "AList.update (m_id m) m mp"] update_values_from [of "m_id m" m mp]
  show ?case by auto
qed

text \<open>
  C4. The merge of two message lists holds every id of either list exactly once, holds
  only messages of the two lists, and is ordered by sequence number (0 when absent), then
  by timestamp: no duplicate ids and no sequence-number inversions.
\<close>

theorem mergeMessages_dedups_and_orders:
  "distinct (map m_id (mergeMessages prev incoming))
   \<and> set (map m_id (mergeMessages prev incoming)) = set (map m_id prev) \<union> set (map m_id incoming)
   \<and> set (mergeMessages prev incoming) \<subseteq> set prev \<union> set incoming
   \<and> sorted_wrt ordered_before (mergeMessages prev incoming)
   \<and> sorted (map seq_or_zero (mergeMessages prev incoming))"
proof -
  let ?mp = "map_set_all (map_set_all [] prev) incoming"
  have keyed: "\<forall>p \<in> set ?mp. fst p = m_id (snd p)"
    by (intro map_set_all_keyed) simp
  then have ids: "map m_id (values_of ?mp) = map fst ?mp"
    by (simp add: values_of_def)
  have dist: "distinct (map fst ?mp)"
    by (intro map_set_all_distinct) simp
  have keys: "fst ` set ?mp = m_id ` set prev \<union> m_id ` set incoming"
    by (simp add: map_set_all_keys)
  have vals: "set (values_of ?mp) \<subseteq> set prev \<union> set incoming"
    using map_set_all_values [of "map_set_all [] prev" incoming] map_set_all_values [of "[]" prev]
    by (auto simp: values_of_def)
  have 1: "distinct (map m_id (mergeMessages prev incoming))"
    using dist ids by (simp add: mergeMessages_def distinct_map_js_sort)
  have 2: "set (map m_id (mergeMessages prev incoming)) = set (map m_id prev) \<union> set (map m_id incoming)"
  proof -
    have "set (map m_id (mergeMessages prev incoming)) = m_id ` set (values_of ?mp)"
      by (simp add: mergeMessages_def set_js_sort)
    also have "\<dots> = set (map m_id (values_of ?mp))" by simp
    also have "\<dots> = fst ` set ?mp" unfolding ids by simp
    finally show ?thesis using keys by simp
  qed
  have 3: "set (mergeMessages prev incoming) \<subseteq> set prev \<union> set incoming"
    using vals by (simp add: mergeMessages_def set_js_sort)
  have 4: "sorted_wrt ordered_before (mergeMessages prev incoming)"
    by (simp add: mergeMessages_def sorted_js_sort)
  have "sorted_wrt (\<lambda>a b. seq_or_zero a \<le> seq_or_zero b) (mergeMessages prev incoming)"
    by (rule sorted_wrt_mono_rel [OF _ 4]) (auto simp: ordered_before_def)
  then have 5: "sorted (map seq_or_zero (mergeMessages prev incoming))"
    by (simp add: sorted_map)
  from 1 2 3 4 5 show ?thesis by blast
qed

theorem mergeMessages_dedups_and_orders_witness:
  "distinct (map m_id (mergeMessages
       [demo_message ''x'' None 9, demo_message ''a'' (Some 1) 5, demo_message ''b'' (Some 2) 6]
       [demo_message ''b'' (Some 2) 6, demo_message ''c'' (Some 3) 7, demo_message ''a'' (Some 1) 5]))
   \<and> sorted (map seq_or_zero (mergeMessages
       [demo_message ''x'' None 9, demo_message ''a'' (Some 1) 5, demo_message ''b'' (Some 2) 6]
       [demo_message ''b'' (Some 2) 6, demo_message ''c'' (Some 3) 7, demo_message ''a'' (Some 1) 5]))
   \<and> map m_id (mergeMessages
       [demo_message ''x'' None 9, demo_message ''a'' (Some 1) 5, demo_message ''b'' (Some 2) 6]
       [demo_message ''b'' (Some 2) 6, demo_message ''c'' (Some 3) 7, demo_message ''a'' (Some 1) 5])
      = [''x'', ''a'', ''b'', ''c'']"
proof -
  let ?prev = "[demo_message ''x'' None 9, demo_message ''a'' (Some 1) 5, demo_message ''b'' (Some 2) 6]"
  let ?inc = "[demo_message ''b'' (Some 2) 6, demo_message ''c'' (Some 3) 7, demo_message ''a'' (Some 1) 5]"
  have e: "map m_id (mergeMessages ?prev ?inc) = [''x'', ''a'', ''b'', ''c'']" by code_simp
  from mergeMessages_dedups_and_orders [of ?prev ?inc] e show ?thesis by blast
qed

text \<open>
  C5. When the current user is not an administrator and the room id is absent or empty,
  \<open>sendMessage\<close> leaves the whole state as it is: the message list, localStorage and the
  log of relay requests.
\<close>

theorem global_send_rejected_for_non_admin:
  assumes "currentUser s = Some u" and "\<not> u_isAdmin u" and "\<not> js_truthy roomId"
  shows "sendMessage aesEncryptString s newId now content roomId = s"
  using assms by (simp add: sendMessage_def)

theorem global_send_rejected_for_non_admin_witness:
  "sendMessage no_encrypt fresh_client ''id-1'' 5 ''hello'' None = fresh_client
   \<and> sent (sendMessage no_encrypt fresh_client ''id-1'' 5 ''hello'' None) = []
   \<and> messages (sendMessage no_encrypt fresh_client ''id-1'' 5 ''hello'' (Some [])) = []"
proof -
  have u: "currentUser fresh_client = Some demo_user" "\<not> u_isAdmin demo_user"
    "\<not> js_truthy None" "\<not> js_truthy (Some [])"
    by (simp_all add: fresh_client_def demo_user_def js_truthy_def)
  have f: "sent fresh_client = []" "messages fresh_client = []"
    by (simp_all add: fresh_client_def signed_out_def)
  from global_send_rejected_for_non_admin [OF u(1) u(2) u(3)]
       global_send_rejected_for_non_admin [OF u(1) u(2) u(4)] f
  show ?thesis by simp
qed

subsection \<open>The receive poll (C8, C7)\<close>

text \<open>
  C8 fails on the code. A tick reads the dismissed set once, before its loop over the
  listed transfers, and the loop waits for the relay at every chunk. Bob removes the
  finished transfer \<open>f1\<close> from his list while a tick waits for a chunk of \<open>g1\<close>, which the
  relay lists before \<open>f1\<close>: \<open>f1\<close> is recorded as dismissed and leaves the list and
  localStorage, and its buffer is dropped. When the chunk arrives the tick goes on to
  \<open>f1\<close> with the dismissed set it read before: it finds no buffer, so it makes a new one,
  adds \<open>f1\<close> to the list again and asks for its chunks again. The tick after that reads
  the dismissed set anew and skips \<open>f1\<close>, which stays in the list, downloaded a second
  time.
\<close>

theorem tick_in_flight_adds_dismissed_transfer_again:
  "listing_from relay_f1_full 10 ''bob''
     = Some [(demo_listing [])\<lparr>tl_id := ''g1'', tl_completed := False\<rparr>, demo_listing [0, 1]]
   \<and> listing_from relay_g1_started 20 ''bob''
     = Some [(demo_listing [0])\<lparr>tl_id := ''g1'', tl_completed := False\<rparr>, demo_listing [0, 1]]
   \<and> chunk_from relay_g1_started 21 ''bob'' ''g1'' 0 = hi_chunk
   \<and> map_option local_list (acts no_decrypt demo_base64 signed_out before_dismissal)
     = Some [(''g1'', Transferring, None), (''f1'', Completed, Some [104, 105, 104, 105])]
   \<and> map_option dismissed_list (acts no_decrypt demo_base64 signed_out before_dismissal) = Some []
   \<and> map_option (asked_of ''f1'') (acts no_decrypt demo_base64 signed_out before_dismissal)
     = Some [0, 1]
   \<and> map_option local_list
        (acts no_decrypt demo_base64 signed_out (before_dismissal @ [Remove ''f1'']))
     = Some [(''g1'', Transferring, None)]
   \<and> map_option dismissed_list
        (acts no_decrypt demo_base64 signed_out (before_dismissal @ [Remove ''f1'']))
     = Some [''f1'']
   \<and> map_option local_list
        (acts no_decrypt demo_base64 signed_out (before_dismissal @ dismissal))
     = Some [(''g1'', Transferring, None), (''f1'', Transferring, None)]
   \<and> map_option stored_list
        (acts no_decrypt demo_base64 signed_out (before_dismissal @ dismissal))
     = Some [(''g1'', Transferring, None), (''f1'', Transferring, None)]
   \<and> map_option dismissed_list
        (acts no_decrypt demo_base64 signed_out (before_dismissal @ dismissal))
     = Some [''f1'']
   \<and> map_option (asked_of ''f1'')
        (acts no_decrypt demo_base64 signed_out (before_dismissal @ dismissal))
     = Some [0, 1, 0]
   \<and> map_option local_list
        (acts no_decrypt demo_base64 signed_out (before_dismissal @ dismissal @ after_dismissal))
     = Some [(''g1'', Transferring, None), (''f1'', Completed, Some [104, 105, 104, 105])]
   \<and> map_option dismissed_list
        (acts no_decrypt demo_base64 signed_out (before_dismissal @ dismissal @ after_dismissal))
     = Some [''f1'']
   \<and> map_option (asked_of ''f1'')
        (acts no_decrypt demo_base64 signed_out (before_dismissal @ dismissal @ after_dismissal))
     = Some [0, 1, 0, 1]"
  by code_simp

text \<open>
  C7 fails on the code. A tick leaves out the indices that are in the downloaded set when
  it filters the listing (line 790), and writes what it receives without looking at the
  set again (lines 809 and 810). Bob's room key is set while his first tick waits for
  chunk 0 of \<open>f1\<close>, a transfer of three chunks of which the relay has two: the effect runs
  again, and its tick finds the chunks 0 and 1 not downloaded and asks for chunk 0 too.
  The first tick records both chunks: the slots 0 and 1 hold the bytes of \<open>''hi''\<close>, and 0
  and 1 are in the downloaded set. The second tick goes on with what it filtered before:
  it writes chunk 0 again and asks for chunk 1, an index in the downloaded set of the
  transfer in progress, and writes the reply over slot 1, which now holds the bytes of
  \<open>''yo''\<close>, the data that the sender has uploaded since.
\<close>

theorem overlapping_ticks_write_downloaded_chunk_again:
  "listing_from relay_f1_started 10 ''bob''
     = Some [(demo_listing [0, 1])\<lparr>tl_totalChunks := 3, tl_completed := False\<rparr>]
   \<and> chunk_from relay_f1_started 13 ''bob'' ''f1'' 1 = hi_chunk
   \<and> chunk_from relay_f1_again 16 ''bob'' ''f1'' 1 = Chunk_reply True ''eW8='' []
   \<and> map_option (asked_of ''f1'') (acts no_decrypt demo_base64 signed_out two_ticks)
     = Some [0, 0]
   \<and> Option.bind (acts no_decrypt demo_base64 signed_out (two_ticks @ first_tick))
        (buffer_of ''f1'')
     = Some (3, [0, 1], [(0, [104, 105]), (1, [104, 105])])
   \<and> map_option (asked_of ''f1'') (acts no_decrypt demo_base64 signed_out (two_ticks @ first_tick))
     = Some [0, 0, 1]
   \<and> map_option local_list (acts no_decrypt demo_base64 signed_out (two_ticks @ first_tick))
     = Some [(''f1'', Transferring, None)]
   \<and> map_option (asked_of ''f1'')
        (acts no_decrypt demo_base64 signed_out (two_ticks @ first_tick @ take 1 second_tick))
     = Some [0, 0, 1, 1]
   \<and> Option.bind (acts no_decrypt demo_base64 signed_out (two_ticks @ first_tick @ second_tick))
        (buffer_of ''f1'')
     = Some (3, [0, 1], [(0, [104, 105]), (1, [121, 111])])
   \<and> map_option local_list
        (acts no_decrypt demo_base64 signed_out (two_ticks @ first_tick @ second_tick))
     = Some [(''f1'', Transferring, None)]"
  by code_simp

subsection \<open>Transfer completion (C1)\<close>

lemma length_alist_update:
  "length (AList.update k v al) = (if k \<in> fst ` set al then length al else Suc (length al))"
  by (induction al) auto

lemma uploads_ok_store_chunk:
  assumes "uploads_ok N t D" and "up_totalChunks u = N \<or> up_totalChunks u = 0"
  shows "uploads_ok N (store_chunk t u) (insert (up_index u) D)"
  using assms
  by (auto simp: uploads_ok_def store_chunk_def Let_def distinct_update dom_update
        length_alist_update)

lemma uploads_ok_foldl:
  assumes "uploads_ok N t D" and "\<forall>u \<in> set ups. up_totalChunks u = N \<or> up_totalChunks u = 0"
  shows "uploads_ok N (foldl store_chunk t ups) (D \<union> up_index ` set ups)"
  using assms
proof (induction ups arbitrary: t D)
  case Nil then show ?case by simp
next
  case (Cons u ups)
  have "uploads_ok N (store_chunk t u) (insert (up_index u) D)"
    by (rule uploads_ok_store_chunk) (use Cons.prems in auto)
  from Cons.IH [OF this] Cons.prems(2) show ?case by simp
qed

lemma upload_chunk_at:
  "up_transferId u = tid \<Longrightarrow>
   map_of (fileTransfers (snd (upload_chunk s u))) tid
     = map_option (\<lambda>t. store_chunk t u) (map_of (fileTransfers s) tid)"
  by (simp add: upload_chunk_def update_conv' split: option.splits)

lemma run_uploads:
  assumes "\<forall>u \<in> set ups. up_transferId u = tid"
  shows "map_of (fileTransfers (run s (map (\<lambda>u. Request now (Upload_chunk u)) ups))) tid
           = map_option (\<lambda>t. foldl store_chunk t ups) (map_of (fileTransfers s) tid)"
  using assms
proof (induction ups arbitrary: s)
  case Nil then show ?case by (simp add: option.map_ident)
next
  case (Cons u ups)
  then show ?case by (simp add: upload_chunk_at option.map_comp comp_def)
qed

lemma relay_completion:
  assumes "1 \<le> it_totalChunks p"
    and "\<forall>u \<in> set ups. up_transferId u = it_id p
            \<and> (up_totalChunks u = it_totalChunks p \<or> up_totalChunks u = 0)"
  shows "\<exists>t. map_of (fileTransfers (run s (Request now (Init_file_transfer p)
                 # map (\<lambda>u. Request now (Upload_chunk u)) ups))) (it_id p) = Some t
            \<and> fst ` set (t_chunks t) = up_index ` set ups
            \<and> (t_completed t \<longleftrightarrow> it_totalChunks p \<le> int (card (up_index ` set ups)))"
proof -
  let ?N = "it_totalChunks p"
  let ?s1 = "snd (init_file_transfer s now p)"
  obtain t0 where t0: "map_of (fileTransfers ?s1) (it_id p) = Some t0" "uploads_ok ?N t0 {}"
    using assms(1) by (simp add: init_file_transfer_def update_conv' uploads_ok_def)
  let ?t = "foldl store_chunk t0 ups"
  have ok: "uploads_ok ?N ?t ({} \<union> up_index ` set ups)"
    by (rule uploads_ok_foldl [OF t0(2)]) (use assms(2) in auto)
  have at: "map_of (fileTransfers (run ?s1 (map (\<lambda>u. Request now (Upload_chunk u)) ups))) (it_id p) = Some ?t"
    using run_uploads [of ups "it_id p" ?s1 now] assms(2) t0(1) by simp
  from ok have "card (up_index ` set ups) = length (t_chunks ?t)"
    using distinct_card [of "map fst (t_chunks ?t)"] by (simp add: uploads_ok_def)
  with ok at show ?thesis by (simp add: uploads_ok_def)
qed

lemma percent_reached:
  assumes "0 < (t::int)"
  shows "100 \<le> (n * 100) div t \<longleftrightarrow> t \<le> n"
proof
  assume h: "100 \<le> (n * 100) div t"
  have "t * ((n * 100) div t) + (n * 100) mod t = n * 100" by simp
  moreover have "0 \<le> (n * 100) mod t" using assms by simp
  moreover have "t * 100 \<le> t * ((n * 100) div t)" using h assms by (simp add: mult_left_mono)
  ultimately show "t \<le> n" by linarith
next
  assume "t \<le> n"
  then have "(t * 100) div t \<le> (n * 100) div t" using assms by (intro zdiv_mono1) simp_all
  then show "100 \<le> (n * 100) div t" using assms by simp
qed

lemma at_least_100_progress:
  "0 \<le> tot \<Longrightarrow> at_least_100 (progress_of n tot) \<longleftrightarrow> tot \<le> int n"
  using percent_reached [of tot "int n"] by (auto simp: progress_of_def)

lemma find_update_first:
  "find P xs = Some e \<Longrightarrow> P (f e) \<Longrightarrow> find P (update_first P f xs) = Some (f e)"
  by (induction xs) (auto split: if_splits)

lemma receiver_completion:
  assumes rec: "map_of (buffers s) a = Some rec" and d: "distinct (rc_downloaded rec)"
    and tot: "0 \<le> rc_total rec"
    and e: "find (\<lambda>t. ft_id t = tid) (ls_fileTransfers (storage s)) = Some e"
  shows "\<exists>rec' e'. map_of (buffers (record_chunk a tid i b s)) a = Some rec'
          \<and> distinct (rc_downloaded rec') \<and> set (rc_downloaded rec') = insert i (set (rc_downloaded rec))
          \<and> rc_total rec' = rc_total rec
          \<and> find (\<lambda>t. ft_id t = tid) (ls_fileTransfers (storage (record_chunk a tid i b s))) = Some e'
          \<and> (ft_status e' = Completed \<longleftrightarrow> rc_total rec \<le> int (card (insert i (set (rc_downloaded rec)))))
          \<and> ft_downloadUrl e' =
               (if int (card (insert i (set (rc_downloaded rec)))) = rc_total rec
                then Some (assemble rec') else ft_downloadUrl e)"
proof -
  let ?rec1 = "with_chunk rec i b"
  let ?n = "length (rc_downloaded ?rec1)"
  let ?prog = "progress_of ?n (rc_total rec)"
  let ?u1 = "\<lambda>t. t\<lparr>ft_progress := ?prog,
                    ft_status := (if at_least_100 ?prog then Completed else Transferring)\<rparr>"
  let ?u2 = "\<lambda>t. t\<lparr>ft_downloadUrl := Some (assemble ?rec1), ft_status := Completed,
                    ft_progress := Percent 100\<rparr>"
  let ?P = "\<lambda>t. ft_id t = tid"
  have e_id: "ft_id e = tid" using e by (auto simp: find_Some_iff)
  have dist: "distinct (rc_downloaded ?rec1)" and dset: "set (rc_downloaded ?rec1) = insert i (set (rc_downloaded rec))"
    using d by (auto simp: with_chunk_def set_add_def)
  have card: "card (insert i (set (rc_downloaded rec))) = ?n"
    using distinct_card [OF dist] dset by simp
  have f1: "find ?P (update_first ?P ?u1 (ls_fileTransfers (storage s))) = Some (?u1 e)"
    by (rule find_update_first [OF e]) (simp add: e_id)
  have f2: "find ?P (update_first ?P ?u2 (update_first ?P ?u1 (ls_fileTransfers (storage s)))) = Some (?u2 (?u1 e))"
    by (rule find_update_first [OF f1]) (simp add: e_id)
  have recv: "map_of (buffers (record_chunk a tid i b s)) a = Some ?rec1"
    using rec by (simp add: record_chunk_def Let_def set_view_def update_conv' with_chunk_def)
  show ?thesis
  proof (cases "int ?n = rc_total rec")
    case True
    then have "find ?P (ls_fileTransfers (storage (record_chunk a tid i b s))) = Some (?u2 (?u1 e))"
      using rec f2 by (simp add: record_chunk_def Let_def set_view_def storage_updateFileTransfer_def
            with_chunk_def)
    with True recv dist dset card show ?thesis by (simp add: with_chunk_def)
  next
    case False
    then have "find ?P (ls_fileTransfers (storage (record_chunk a tid i b s))) = Some (?u1 e)"
      using rec f1 by (simp add: record_chunk_def Let_def set_view_def storage_updateFileTransfer_def
            with_chunk_def)
    with False recv dist dset card at_least_100_progress [OF tot, of ?n] show ?thesis
      by (simp add: with_chunk_def)
  qed
qed

lemma full_range_iff:
  assumes "D \<subseteq> {0..<N}"
  shows "N \<le> int (card D) \<longleftrightarrow> D = {0..<(N::int)}"
proof
  assume "D = {0..<N}" then show "N \<le> int (card D)" by simp
next
  assume h: "N \<le> int (card D)"
  have "card D \<le> card {0..<N}" by (rule card_mono) (use assms in auto)
  with h have "card D = card {0..<N}" by simp
  with assms show "D = {0..<N}" by (intro card_subset_eq) auto
qed

text \<open>
  C1, as amended. Relay: after \<open>init_file_transfer\<close> with a chunk count \<open>N\<close> of at least 1
  and uploads that carry \<open>N\<close> (or 0), the transfer is complete exactly when at least \<open>N\<close>
  distinct indices were uploaded; when all of them are in \<open>[0, N)\<close>, exactly when all of
  \<open>[0, N)\<close> were. Receiver: after a chunk is recorded the local transfer is completed
  exactly when the number of distinct recorded indices is at least the chunk count, the
  file is assembled exactly when it equals the chunk count, and when all recorded indices
  are in \<open>[0, N)\<close> the transfer is completed exactly when all of \<open>[0, N)\<close> are recorded.
\<close>

theorem transfer_complete_when_count_reaches_total:
  "(1 \<le> it_totalChunks p \<longrightarrow>
      (\<forall>u \<in> set ups. up_transferId u = it_id p
          \<and> (up_totalChunks u = it_totalChunks p \<or> up_totalChunks u = 0)) \<longrightarrow>
      (\<exists>t. map_of (fileTransfers (run relay (Request now (Init_file_transfer p)
                 # map (\<lambda>u. Request now (Upload_chunk u)) ups))) (it_id p) = Some t
          \<and> fst ` set (t_chunks t) = up_index ` set ups
          \<and> (t_completed t \<longleftrightarrow> it_totalChunks p \<le> int (card (up_index ` set ups)))
          \<and> (up_index ` set ups \<subseteq> {0..<it_totalChunks p} \<longrightarrow>
               (t_completed t \<longleftrightarrow> up_index ` set ups = {0..<it_totalChunks p}))))
   \<and> (map_of (buffers s) a = Some rec \<longrightarrow> distinct (rc_downloaded rec) \<longrightarrow> 0 \<le> rc_total rec \<longrightarrow>
      find (\<lambda>t. ft_id t = tid) (ls_fileTransfers (storage s)) = Some e \<longrightarrow>
      (\<exists>rec' e'. map_of (buffers (record_chunk a tid i b s)) a = Some rec'
          \<and> distinct (rc_downloaded rec')
          \<and> set (rc_downloaded rec') = insert i (set (rc_downloaded rec))
          \<and> rc_total rec' = rc_total rec
          \<and> find (\<lambda>t. ft_id t = tid) (ls_fileTransfers (storage (record_chunk a tid i b s))) = Some e'
          \<and> (ft_status e' = Completed \<longleftrightarrow> rc_total rec \<le> int (card (set (rc_downloaded rec'))))
          \<and> ft_downloadUrl e' =
               (if int (card (set (rc_downloaded rec'))) = rc_total rec
                then Some (assemble rec') else ft_downloadUrl e)
          \<and> (set (rc_downloaded rec') \<subseteq> {0..<rc_total rec} \<longrightarrow>
               (ft_status e' = Completed \<longleftrightarrow> set (rc_downloaded rec') = {0..<rc_total rec}))))"
proof (intro conjI impI)
  assume a: "1 \<le> it_totalChunks p"
    "\<forall>u \<in> set ups. up_transferId u = it_id p \<and> (up_totalChunks u = it_totalChunks p \<or> up_totalChunks u = 0)"
  from relay_completion [OF a, of relay now] obtain t where
    t: "map_of (fileTransfers (run relay (Request now (Init_file_transfer p)
                 # map (\<lambda>u. Request now (Upload_chunk u)) ups))) (it_id p) = Some t"
       "fst ` set (t_chunks t) = up_index ` set ups"
       "t_completed t \<longleftrightarrow> it_totalChunks p \<le> int (card (up_index ` set ups))" by blast
  have "up_index ` set ups \<subseteq> {0..<it_totalChunks p} \<longrightarrow>
          (t_completed t \<longleftrightarrow> up_index ` set ups = {0..<it_totalChunks p})"
    using t(3) full_range_iff [of "up_index ` set ups" "it_totalChunks p"] by blast
  with t show "\<exists>t. map_of (fileTransfers (run relay (Request now (Init_file_transfer p)
                 # map (\<lambda>u. Request now (Upload_chunk u)) ups))) (it_id p) = Some t
          \<and> fst ` set (t_chunks t) = up_index ` set ups
          \<and> (t_completed t \<longleftrightarrow> it_totalChunks p \<le> int (card (up_index ` set ups)))
          \<and> (up_index ` set ups \<subseteq> {0..<it_totalChunks p} \<longrightarrow>
               (t_completed t \<longleftrightarrow> up_index ` set ups = {0..<it_totalChunks p}))" by blast
next
  assume a: "map_of (buffers s) a = Some rec" "distinct (rc_downloaded rec)" "0 \<le> rc_total rec"
    "find (\<lambda>t. ft_id t = tid) (ls_fileTransfers (storage s)) = Some e"
  from receiver_completion [OF a, of i b] obtain rec' e' where
    r: "map_of (buffers (record_chunk a tid i b s)) a = Some rec'"
       "distinct (rc_downloaded rec')" "set (rc_downloaded rec') = insert i (set (rc_downloaded rec))"
       "rc_total rec' = rc_total rec"
       "find (\<lambda>t. ft_id t = tid) (ls_fileTransfers (storage (record_chunk a tid i b s))) = Some e'"
       "ft_status e' = Completed \<longleftrightarrow> rc_total rec \<le> int (card (insert i (set (rc_downloaded rec))))"
       "ft_downloadUrl e' = (if int (card (insert i (set (rc_downloaded rec)))) = rc_total rec
                then Some (assemble rec') else ft_downloadUrl e)" by blast
  have "set (rc_downloaded rec') \<subseteq> {0..<rc_total rec} \<longrightarrow>
               (ft_status e' = Completed \<longleftrightarrow> set (rc_downloaded rec') = {0..<rc_total rec})"
    using r(6) full_range_iff [of "set (rc_downloaded rec')" "rc_total rec"] unfolding r(3) by blast
  with r show "\<exists>rec' e'. map_of (buffers (record_chunk a tid i b s)) a = Some rec'
          \<and> distinct (rc_downloaded rec')
          \<and> set (rc_downloaded rec') = insert i (set (rc_downloaded rec))
          \<and> rc_total rec' = rc_total rec
          \<and> find (\<lambda>t. ft_id t = tid) (ls_fileTransfers (storage (record_chunk a tid i b s))) = Some e'
          \<and> (ft_status e' = Completed \<longleftrightarrow> rc_total rec \<le> int (card (set (rc_downloaded rec'))))
          \<and> ft_downloadUrl e' =
               (if int (card (set (rc_downloaded rec'))) = rc_total rec
                then Some (assemble rec') else ft_downloadUrl e)
          \<and> (set (rc_downloaded rec') \<subseteq> {0..<rc_total rec} \<longrightarrow>
               (ft_status e' = Completed \<longleftrightarrow> set (rc_downloaded rec') = {0..<rc_total rec}))"
    by (intro exI [of _ rec'] exI [of _ e']) simp
qed

theorem transfer_complete_when_count_reaches_total_witness:
  "(\<exists>t. map_of (fileTransfers (run relay_init (Request 1 (Init_file_transfer demo_init)
             # map (\<lambda>u. Request 1 (Upload_chunk u)) [demo_upload 0, demo_upload 1]))) ''f1'' = Some t
        \<and> t_completed t)
   \<and> (\<exists>t. map_of (fileTransfers (run relay_init (Request 1 (Init_file_transfer demo_init)
             # map (\<lambda>u. Request 1 (Upload_chunk u)) [demo_upload 0, demo_upload 0]))) ''f1'' = Some t
        \<and> \<not> t_completed t)
   \<and> (\<exists>rec' e'. map_of (buffers (record_chunk 0 ''f1'' 1 [3, 4] demo_client)) 0 = Some rec'
        \<and> find (\<lambda>t. ft_id t = ''f1'')
             (ls_fileTransfers (storage (record_chunk 0 ''f1'' 1 [3, 4] demo_client))) = Some e'
        \<and> ft_status e' = Completed \<and> ft_downloadUrl e' = Some (assemble rec'))
   \<and> (\<exists>rec' e'. map_of (buffers (record_chunk 0 ''f1'' 0 [3, 4] demo_client)) 0 = Some rec'
        \<and> find (\<lambda>t. ft_id t = ''f1'')
             (ls_fileTransfers (storage (record_chunk 0 ''f1'' 0 [3, 4] demo_client))) = Some e'
        \<and> ft_status e' \<noteq> Completed \<and> ft_downloadUrl e' = None)"
proof -
  have p: "1 \<le> it_totalChunks demo_init" by (simp add: demo_init_def)
  have u1: "\<forall>u \<in> set [demo_upload 0, demo_upload 1]. up_transferId u = it_id demo_init
             \<and> (up_totalChunks u = it_totalChunks demo_init \<or> up_totalChunks u = 0)"
    and u2: "\<forall>u \<in> set [demo_upload 0, demo_upload 0]. up_transferId u = it_id demo_init
             \<and> (up_totalChunks u = it_totalChunks demo_init \<or> up_totalChunks u = 0)"
    by (simp_all add: demo_init_def demo_upload_def)
  have c1: "int (card (up_index ` set [demo_upload 0, demo_upload 1])) = 2"
    and c2: "int (card (up_index ` set [demo_upload 0, demo_upload 0])) = 1"
    by (simp_all add: demo_upload_def)
  have r: "map_of (buffers demo_client) 0 = Some demo_receiver"
    "distinct (rc_downloaded demo_receiver)" "0 \<le> rc_total demo_receiver"
    "find (\<lambda>t. ft_id t = ''f1'') (ls_fileTransfers (storage demo_client)) = Some demo_transfer"
    by (simp_all add: demo_client_def fresh_client_def signed_out_def empty_storage_def
          demo_receiver_def demo_transfer_def)
  have d: "rc_total demo_receiver = 2" "set (rc_downloaded demo_receiver) = {0}"
    "ft_downloadUrl demo_transfer = None" "it_id demo_init = ''f1''" "it_totalChunks demo_init = 2"
    by (simp_all add: demo_receiver_def demo_transfer_def demo_init_def)
  note A = transfer_complete_when_count_reaches_total
             [where p = demo_init and ups = "[demo_upload 0, demo_upload 1]" and relay = relay_init
                and now = 1 and s = demo_client and a = 0 and tid = "''f1''" and rec = demo_receiver
                and e = demo_transfer and i = 1 and b = "[3, 4]"]
  note B = transfer_complete_when_count_reaches_total
             [where p = demo_init and ups = "[demo_upload 0, demo_upload 0]" and relay = relay_init
                and now = 1 and s = demo_client and a = 0 and tid = "''f1''" and rec = demo_receiver
                and e = demo_transfer and i = 0 and b = "[3, 4]"]
  from A [THEN conjunct1, THEN mp, OF p, THEN mp, OF u1] have 1:
    "\<exists>t. map_of (fileTransfers (run relay_init (Request 1 (Init_file_transfer demo_init)
             # map (\<lambda>u. Request 1 (Upload_chunk u)) [demo_upload 0, demo_upload 1]))) ''f1'' = Some t
        \<and> t_completed t"
    unfolding c1 d by auto
  from B [THEN conjunct1, THEN mp, OF p, THEN mp, OF u2] have 2:
    "\<exists>t. map_of (fileTransfers (run relay_init (Request 1 (Init_file_transfer demo_init)
             # map (\<lambda>u. Request 1 (Upload_chunk u)) [demo_upload 0, demo_upload 0]))) ''f1'' = Some t
        \<and> \<not> t_completed t"
    unfolding c2 d by auto
  from A [THEN conjunct2, THEN mp, OF r(1), THEN mp, OF r(2), THEN mp, OF r(3), THEN mp, OF r(4)] have 3:
    "\<exists>rec' e'. map_of (buffers (record_chunk 0 ''f1'' 1 [3, 4] demo_client)) 0 = Some rec'
        \<and> find (\<lambda>t. ft_id t = ''f1'')
             (ls_fileTransfers (storage (record_chunk 0 ''f1'' 1 [3, 4] demo_client))) = Some e'
        \<and> ft_status e' = Completed \<and> ft_downloadUrl e' = Some (assemble rec')"
    unfolding d by (elim exE conjE) (rule exI, rule exI, simp)
  from B [THEN conjunct2, THEN mp, OF r(1), THEN mp, OF r(2), THEN mp, OF r(3), THEN mp, OF r(4)] have 4:
    "\<exists>rec' e'. map_of (buffers (record_chunk 0 ''f1'' 0 [3, 4] demo_client)) 0 = Some rec'
        \<and> find (\<lambda>t. ft_id t = ''f1'')
             (ls_fileTransfers (storage (record_chunk 0 ''f1'' 0 [3, 4] demo_client))) = Some e'
        \<and> ft_status e' \<noteq> Completed \<and> ft_downloadUrl e' = None"
    unfolding d by (elim exE conjE) (rule exI, rule exI, simp)
  from 1 2 3 4 show ?thesis by (intro conjI)
qed

text \<open>
  C1 as stated fails. Relay: a transfer of 2 chunks that received the indices 5 and 7, and
  none of \<open>[0, 2)\<close>, is complete. Receiver: bob signs in, the relay lists a transfer of 2
  chunks with the indices 0 and 7, and both chunks arrive: the transfer is completed, and
  the assembled file is chunk 0 alone.
\<close>

theorem out_of_range_chunks_complete_transfer_counterexample:
  "map_option relay_summary
       (map_of (fileTransfers (run relay_init
           [Request 1 (Init_file_transfer demo_init), Request 2 (Upload_chunk (demo_upload 5)),
            Request 3 (Upload_chunk (demo_upload 7))])) ''f1'')
     = Some (2, [5, 7], True)
   \<and> map_option local_list
       (acts no_decrypt demo_base64 signed_out
          [Set_identity (Some demo_user) None, Listing_arrives 0 7 (Some [demo_listing [0, 7]]),
           Chunk_arrives 0 8 hi_chunk, Chunk_arrives 0 9 hi_chunk])
     = Some [(''f1'', Completed, Some [104, 105])]
   \<and> Option.bind
       (acts no_decrypt demo_base64 signed_out
          [Set_identity (Some demo_user) None, Listing_arrives 0 7 (Some [demo_listing [0, 7]]),
           Chunk_arrives 0 8 hi_chunk, Chunk_arrives 0 9 hi_chunk])
       (buffer_of ''f1'')
     = Some (2, [0, 7], [(0, [104, 105]), (7, [104, 105])])
   \<and> map_option (asked_of ''f1'')
       (acts no_decrypt demo_base64 signed_out
          [Set_identity (Some demo_user) None, Listing_arrives 0 7 (Some [demo_listing [0, 7]]),
           Chunk_arrives 0 8 hi_chunk, Chunk_arrives 0 9 hi_chunk])
     = Some [0, 7]"
  by code_simp

end
